theory Spec2Isabelle
  imports Main "HOL-Library.Word" "HOL-Library.AList" "HOL-Library.Multiset"
begin

unbundle bit_operations_syntax

text \<open>
  The catshadow client (client.go): sending a message to a contact, retransmission,
  the replies of the remote spool, trial decryption, and the updates of the PANDA key
  exchange, as functions on the state of the client. Whatever an operation does not
  do by returning (a panic, a lock that is never granted) is a result of its own.
\<close>

section \<open>Go values used by client.go\<close>

type_synonym byte = "8 word"
type_synonym bytes = "byte list"

text \<open>
  \<open>MessageID\<close> is \<open>[MessageIDLen]byte\<close>, the conversation's own message id; a
  transport id is the session's \<open>[cConstants.MessageIDLength]byte\<close>. Both are byte
  arrays compared by value. \<open>time.Time\<close> is an instant, \<open>Before\<close> is \<open><\<close>.
\<close>

type_synonym MessageID = bytes
type_synonym transport_id = bytes
type_synonym time = int

text \<open>
  The ways an operation of the worker goroutine does not return. A run-time panic of Go
  ends the program: a slice expression or index out of range, a nil pointer
  dereference, or an explicit \<open>panic(...)\<close> with its message. \<open>Deadlock\<close> is the
  goroutine locking \<open>conversationsMutex\<close> while it holds it: \<open>sync.Mutex\<close> is not
  reentrant, so the second \<open>Lock\<close> never returns.
\<close>

datatype panic = RuntimeOutOfRange | RuntimeNilDereference | Panic string | Deadlock

text \<open>
  A byte slice as Go has it: the backing array from the slice's first element up to
  its capacity, and the length. \<open>s[lo:hi]\<close> is legal for \<open>lo \<le> hi \<le> cap(s)\<close>
  and panics otherwise; only the bytes of the result are kept.
\<close>

record goslice =
  gs_array :: bytes
  gs_len :: nat

definition slice_expr :: "goslice \<Rightarrow> nat \<Rightarrow> nat \<Rightarrow> panic + bytes" where
  "slice_expr s lo hi =
     (if lo \<le> hi \<and> hi \<le> length (gs_array s)
      then Inr (take (hi - lo) (drop lo (gs_array s)))
      else Inl RuntimeOutOfRange)"

definition slice_of :: "bytes \<Rightarrow> goslice" where
  "slice_of bs = \<lparr>gs_array = bs, gs_len = length bs\<rparr>"

text \<open>\<open>binary.BigEndian.Uint32\<close> and \<open>PutUint32\<close>; both index \<open>b[3]\<close> first.\<close>

definition BigEndian_Uint32 :: "bytes \<Rightarrow> panic + 32 word" where
  "BigEndian_Uint32 b =
     (if length b < 4 then Inl RuntimeOutOfRange
      else Inr (ucast (b ! 3) OR push_bit 8 (ucast (b ! 2))
                OR push_bit 16 (ucast (b ! 1)) OR push_bit 24 (ucast (b ! 0))))"

definition BigEndian_PutUint32 :: "bytes \<Rightarrow> 32 word \<Rightarrow> panic + bytes" where
  "BigEndian_PutUint32 b v =
     (if length b < 4 then Inl RuntimeOutOfRange
      else Inr ([ucast (drop_bit 24 v), ucast (drop_bit 16 v),
                 ucast (drop_bit 8 v), ucast v] @ drop 4 b))"

text \<open>The four bytes \<open>PutUint32\<close> writes, most significant first.\<close>

definition be32 :: "32 word \<Rightarrow> bytes" where
  "be32 v = [ucast (drop_bit 24 v), ucast (drop_bit 16 v), ucast (drop_bit 8 v), ucast v]"

text \<open>\<open>bytes.Equal\<close> on two possibly nil slices: nil equals the empty slice.\<close>

definition bytes_Equal :: "bytes option \<Rightarrow> bytes option \<Rightarrow> bool" where
  "bytes_Equal a b = (case_option [] id a = case_option [] id b)"

section \<open>Data model\<close>

record Message =
  Plaintext :: bytes
  Ciphertext :: bytes
  Timestamp :: time
  Outbound :: bool
  Sent :: bool
  Delivered :: bool

record SpoolWriteDescriptor =
  swd_ID :: bytes
  swd_Receiver :: string
  swd_Provider :: string

text \<open>
  A contact. The ratchet is the double ratchet's state, of a type \<open>'r\<close> that the
  client never looks into. \<open>pandaKeyExchange\<close> and \<open>spoolWriteDescriptor\<close> are nil
  (\<open>None\<close>) or set; \<open>pandaShutdownChan\<close> is kept as whether it is non-nil.
  \<open>UnACKed\<close> is a count: the client adds one to it, and takes one off only after
  testing that it is positive. Its declaration is in contact.go; it is kept as a
  natural number, which is what a Go integer of any width holds as long as the count
  stays within the window, a constant that line 523 compares it with.
\<close>

record 'r Contact =
  cid :: "64 word"
  Nickname :: string
  IsPending :: bool
  UnACKed :: nat
  pandaKeyExchange :: "bytes option"
  pandaResult :: string
  pandaShutdownChan :: bool
  ratchet :: 'r
  spoolWriteDescriptor :: "SpoolWriteDescriptor option"

record SentMessageDescriptor =
  smd_Nickname :: string
  smd_MessageID :: MessageID

text \<open>
  \<open>sendMap\<close> is a \<open>sync.Map\<close>: its keys are interface values, so a key is a
  transport id by value (what \<open>Store(*mesgID, ...)\<close> and \<open>Load(*ev.MessageID)\<close>
  use) or a pointer to one, and a pointer never equals an array. Every value stored is
  a \<open>*SentMessageDescriptor\<close>, so the \<open>default\<close> arm of the type switches is
  never taken and has no counterpart here.
\<close>

datatype sendMap_key = ArrayKey transport_id | PointerKey nat

text \<open>
  A Go \<open>error\<close> value: the session's \<open>client.ErrReplyTimeout\<close>, which
  \<open>processPANDAUpdate\<close> compares against, or any other error with its text.
\<close>

datatype error = ErrReplyTimeout | Error string

datatype event =
    KeyExchangeCompletedEvent string "error option"
  | MessageSentEvent string MessageID
  | MessageDeliveredEvent string MessageID
  | MessageReceivedEvent string bytes time

record PandaUpdate =
  pu_ID :: "64 word"
  pu_Err :: "error option"
  pu_Serialised :: "bytes option"
  pu_Result :: "bytes option"

text \<open>
  \<open>client.MessageReplyEvent\<close>: \<open>MessageID\<close> is a pointer to a transport id, kept as
  the address and the array it points to.
\<close>

record MessageReplyEvent =
  mre_MessageID_ptr :: nat
  mre_MessageID :: transport_id
  mre_Payload :: bytes

type_synonym msgWithID = "MessageID \<times> Message"

record SpoolResponse =
  sr_MessageID :: "32 word"
  sr_IsOK :: bool
  sr_Message :: bytes

record contactExchange =
  ce_SpoolWriteDescriptor :: "SpoolWriteDescriptor option"
  ce_SignedKeyExchange :: bytes

text \<open>
  What the client calls but does not define: the ratchet, the spool codec, the
  session, the PANDA engine, the state writer, the contact-exchange parser
  (contact.go), the two constants, \<open>sort.Sort\<close> (given the \<open>Less\<close> of the slice
  it sorts), and the capacity Go's \<open>append\<close> gives a slice grown one element at a
  time from an empty literal. Each is a parameter. The session's and the state
  writer's answers depend on how many calls came before.
\<close>

record 'r externals =
  MaxMissingMessages :: int
  DoubleRatchetPayloadLength :: nat
  Encrypt :: "'r \<Rightarrow> bytes \<Rightarrow> bytes \<times> 'r"
  Decrypt :: "'r \<Rightarrow> bytes \<Rightarrow> (string + goslice) \<times> 'r"
  ProcessKeyExchange :: "'r \<Rightarrow> bytes \<Rightarrow> string option \<times> 'r"
  parseContactExchangeBytes :: "bytes \<Rightarrow> string + contactExchange"
  AppendToSpool :: "bytes \<Rightarrow> bytes \<Rightarrow> string + bytes"
  SpoolResponseFromBytes :: "bytes \<Rightarrow> string + SpoolResponse"
  SendUnreliableMessage :: "nat \<Rightarrow> string \<Rightarrow> string \<Rightarrow> bytes \<Rightarrow> string + transport_id"
  GetPandaConfig_nil :: bool
  UnmarshalKeyExchange :: "bytes option \<Rightarrow> string option"
  Error_text :: "error \<Rightarrow> string"
  writeState :: "nat \<Rightarrow> bool"
  sort_Sort :: "(msgWithID list \<Rightarrow> nat \<Rightarrow> nat \<Rightarrow> bool) \<Rightarrow> msgWithID list \<Rightarrow> msgWithID list"
  append_cap :: "nat \<Rightarrow> nat"

text \<open>
  The client. \<open>contacts\<close> and \<open>contactNicknames\<close> hold pointers to the same
  \<open>Contact\<close> objects, so the objects live in \<open>heap\<close> and the two maps hold
  addresses. \<open>contacts\<close> and each conversation are lists of pairs with distinct keys:
  their order is the order a \<open>range\<close> over the Go map visits them in, which Go leaves
  open. \<open>eventCh\<close> and \<open>fatalErrCh\<close> are what has been sent on each channel,
  \<open>session_log\<close> the calls of \<open>SendUnreliableMessage\<close>, \<open>saves\<close> the number of
  state files written, \<open>kx_runs\<close> the number of key-exchange tasks restarted.
\<close>

record 'r Client =
  user :: string
  heap :: "nat \<Rightarrow> 'r Contact"
  contacts :: "(64 word \<times> nat) list"
  contactNicknames :: "string \<Rightarrow> nat option"
  ReadOffset :: "32 word"
  conversations :: "string \<Rightarrow> (MessageID \<times> Message) list option"
  sendMap :: "sendMap_key \<Rightarrow> SentMessageDescriptor option"
  eventCh :: "event list"
  fatalErrCh :: "string list"
  session_log :: "(string \<times> string \<times> bytes) list"
  saves :: nat
  kx_runs :: nat

section \<open>Operations\<close>

text \<open>
  \<open>save\<close>: marshal and write; a write error panics. \<open>marshal\<close> calls
  \<open>GetAllConversations\<close>, which locks \<open>conversationsMutex\<close>: \<open>held\<close> says whether
  the caller of \<open>save\<close> holds that mutex already.
\<close>

definition save :: "'r externals \<Rightarrow> bool \<Rightarrow> 'r Client \<Rightarrow> panic + 'r Client" where
  "save ext held c =
     (if held then Inl Deadlock
      else if writeState ext (saves c) then Inr (c\<lparr>saves := saves c + 1\<rparr>)
      else Inl (Panic ''writeState''))"

text \<open>
  \<open>c.conversations[nickname][mid] = &message\<close>, after creating the inner map when the
  nickname has none.
\<close>

definition conv_insert :: "string \<Rightarrow> MessageID \<Rightarrow> Message \<Rightarrow> 'r Client \<Rightarrow> 'r Client" where
  "conv_insert nickname mid m c =
     c\<lparr>conversations := (conversations c)(nickname \<mapsto>
          AList.update mid m (case conversations c nickname of None \<Rightarrow> [] | Some cm \<Rightarrow> cm))\<rparr>"

subsection \<open>decryptMessage\<close>

text \<open>
  The loop over \<open>c.contacts\<close>: pending contacts are skipped, a ratchet error moves on
  to the next contact, and the first plaintext is cut to
  \<open>plaintext[4 : 4+payloadLen]\<close>, the sum taken in \<open>uint32\<close>. The result is the
  heap (the ratchets have moved) and the nickname and payload, if any.
\<close>

fun trial_decrypt ::
  "'r externals \<Rightarrow> bytes \<Rightarrow> (64 word \<times> nat) list \<Rightarrow> (nat \<Rightarrow> 'r Contact)
     \<Rightarrow> panic + ((nat \<Rightarrow> 'r Contact) \<times> (string \<times> bytes) option)" where
  "trial_decrypt ext ciphertext [] h = Inr (h, None)"
| "trial_decrypt ext ciphertext ((i, a) # rest) h =
     (if IsPending (h a) then trial_decrypt ext ciphertext rest h
      else (case Decrypt ext (ratchet (h a)) ciphertext of
              (Inl err, r') \<Rightarrow> trial_decrypt ext ciphertext rest (h(a := (h a)\<lparr>ratchet := r'\<rparr>))
            | (Inr plaintext, r') \<Rightarrow>
                (case slice_expr plaintext 0 4 of
                   Inl p \<Rightarrow> Inl p
                 | Inr b4 \<Rightarrow>
                    (case BigEndian_Uint32 b4 of
                       Inl p \<Rightarrow> Inl p
                     | Inr payloadLen \<Rightarrow>
                        (case slice_expr plaintext 4 (unat (4 + payloadLen)) of
                           Inl p \<Rightarrow> Inl p
                         | Inr pt \<Rightarrow>
                            Inr (h(a := (h a)\<lparr>ratchet := r'\<rparr>), Some (Nickname (h a), pt)))))))"

text \<open>
  \<open>decryptMessage\<close>. \<open>rnd\<close> is what \<open>rand.Reader.Read\<close> returns (its error, if
  any, and the bytes of the new conversation id), \<open>now\<close> is \<open>time.Now()\<close>.
\<close>

definition decryptMessage ::
  "'r externals \<Rightarrow> string option \<times> MessageID \<Rightarrow> time \<Rightarrow> bytes \<Rightarrow> 'r Client
     \<Rightarrow> panic + ('r Client \<times> bool)" where
  "decryptMessage ext rnd now ciphertext c =
     (case trial_decrypt ext ciphertext (contacts c) (heap c) of
        Inl p \<Rightarrow> Inl p
      | Inr (h, None) \<Rightarrow> Inr (c\<lparr>heap := h\<rparr>, False)
      | Inr (h, Some (nickname, pt)) \<Rightarrow>
          (let message = \<lparr>Plaintext = pt, Ciphertext = [], Timestamp = now,
                          Outbound = False, Sent = False, Delivered = False\<rparr>;
               c1 = c\<lparr>heap := h\<rparr>;
               c2 = (case fst rnd of None \<Rightarrow> c1
                     | Some err \<Rightarrow> c1\<lparr>fatalErrCh := fatalErrCh c1 @ [err]\<rparr>);
               c3 = conv_insert nickname (snd rnd) message c2
           in Inr (c3\<lparr>eventCh := eventCh c3 @ [MessageReceivedEvent nickname pt now]\<rparr>, True)))"

subsection \<open>doRetransmit\<close>

text \<open>The methods of \<open>Messages\<close> that \<open>sort.Sort\<close> is given.\<close>

definition Messages_Len :: "msgWithID list \<Rightarrow> nat" where
  "Messages_Len d = length d"

definition Messages_Swap :: "msgWithID list \<Rightarrow> nat \<Rightarrow> nat \<Rightarrow> msgWithID list" where
  "Messages_Swap d i j = d[i := d ! j, j := d ! i]"

definition Messages_Less :: "msgWithID list \<Rightarrow> nat \<Rightarrow> nat \<Rightarrow> bool" where
  "Messages_Less d i j = (Timestamp (snd (d ! i)) < Timestamp (snd (d ! j)))"

text \<open>The order on messages that \<open>Less\<close> is the strict part of.\<close>

abbreviation (input) ts_le :: "msgWithID \<Rightarrow> msgWithID \<Rightarrow> bool" where
  "ts_le x y \<equiv> Timestamp (snd x) \<le> Timestamp (snd y)"

text \<open>
  The candidates: the conversation's entries, in the order the \<open>range\<close> visits them,
  that are outbound, sent and not delivered.
\<close>

definition undelivered :: "(MessageID \<times> Message) list \<Rightarrow> msgWithID list" where
  "undelivered convMap =
     filter (\<lambda>(mID, msg). Outbound msg \<and> \<not> Delivered msg \<and> Sent msg) convMap"

text \<open>
  The capacity of \<open>rTx\<close> after \<open>n\<close> appends to \<open>Messages{}\<close>: zero when nothing was
  appended, else what \<open>append\<close> allocated, never less than the length.
\<close>

definition rTx_cap :: "'r externals \<Rightarrow> nat \<Rightarrow> nat" where
  "rTx_cap ext n = (if n = 0 then 0 else max n (append_cap ext n))"

text \<open>
  The body of the loop over \<open>rTx[:someLimit]\<close>. An element beyond the length of
  \<open>rTx\<close> but within its capacity is a nil pointer (\<open>None\<close>), and reading
  \<open>msg.Ciphertext\<close> through it panics, as does \<open>contact.spoolWriteDescriptor.ID\<close> on
  a nil descriptor. The result carries the error \<open>doRetransmit\<close> returns, if any.
\<close>

fun retransmit_loop ::
  "'r externals \<Rightarrow> 'r Contact \<Rightarrow> msgWithID option list \<Rightarrow> 'r Client
     \<Rightarrow> panic + (string option \<times> 'r Client)" where
  "retransmit_loop ext contact [] c = Inr (None, c)"
| "retransmit_loop ext contact (m # ms) c =
     (case spoolWriteDescriptor contact of
        None \<Rightarrow> Inl RuntimeNilDereference
      | Some d \<Rightarrow>
         (case m of
            None \<Rightarrow> Inl RuntimeNilDereference
          | Some (mID, msg) \<Rightarrow>
             (case AppendToSpool ext (swd_ID d) (Ciphertext msg) of
                Inl err \<Rightarrow> Inr (Some err, c)
              | Inr appendCmd \<Rightarrow>
                 (let c1 = c\<lparr>session_log := session_log c
                                @ [(swd_Receiver d, swd_Provider d, appendCmd)]\<rparr>
                  in case SendUnreliableMessage ext (length (session_log c))
                            (swd_Receiver d) (swd_Provider d) appendCmd of
                       Inl err \<Rightarrow> Inr (Some err, c1)
                     | Inr mesgID \<Rightarrow>
                         retransmit_loop ext contact ms
                           (c1\<lparr>sendMap := (sendMap c1)(ArrayKey mesgID \<mapsto>
                                  \<lparr>smd_Nickname = Nickname contact, smd_MessageID = mID\<rparr>)\<rparr>)))))"

definition someLimit :: nat where
  "someLimit = 4"

definition doRetransmit ::
  "'r externals \<Rightarrow> nat \<Rightarrow> 'r Client \<Rightarrow> panic + (string option \<times> 'r Client)" where
  "doRetransmit ext a c =
     (let contact = heap c a in
      case conversations c (Nickname contact) of
        None \<Rightarrow> Inr (Some ''Retransmit failure: No conversations found'', c)
      | Some convMap \<Rightarrow>
         (let rTx = undelivered convMap;
              cap = rTx_cap ext (length rTx);
              sorted = sort_Sort ext Messages_Less rTx
          in if someLimit \<le> cap
             then retransmit_loop ext contact
                    (take someLimit (map Some sorted @ replicate (cap - length rTx) None)) c
             else Inl RuntimeOutOfRange))"

subsection \<open>doSendMessage and SendMessage\<close>

text \<open>
  The framing of lines 530 to 532: a zeroed array of \<open>DoubleRatchetPayloadLength\<close>
  bytes, the length of the message as \<open>uint32\<close> in its first four bytes, and
  \<open>copy\<close>, which copies as many bytes as the shorter of the two slices has. Go
  compiles \<open>payload[:4]\<close> only for an array of at least four bytes.
\<close>

definition go_copy :: "bytes \<Rightarrow> bytes \<Rightarrow> bytes" where
  "go_copy dst src = take (length dst) src @ drop (length src) dst"

definition frame_payload :: "nat \<Rightarrow> bytes \<Rightarrow> panic + bytes" where
  "frame_payload n message =
     (let payload = replicate n (0 :: byte) in
      if n < 4 then Inl RuntimeOutOfRange
      else case BigEndian_PutUint32 (take 4 payload) (of_nat (length message)) of
             Inl p \<Rightarrow> Inl p
           | Inr hd4 \<Rightarrow> Inr (hd4 @ go_copy (drop 4 payload) message))"

text \<open>
  \<open>doSendMessage\<close>. The message stored in the conversation and \<open>outMessage\<close> are one
  object, so the ciphertext assigned after the encryption shows in the conversation.
  The error \<open>doRetransmit\<close> returns is dropped.
\<close>

definition doSendMessage ::
  "'r externals \<Rightarrow> time \<Rightarrow> MessageID \<Rightarrow> string \<Rightarrow> bytes \<Rightarrow> 'r Client \<Rightarrow> panic + 'r Client" where
  "doSendMessage ext now convoMesgID nickname message c =
     (let outMessage = \<lparr>Plaintext = message, Ciphertext = [], Timestamp = now,
                         Outbound = True, Sent = False, Delivered = False\<rparr>;
          c1 = conv_insert nickname convoMesgID outMessage c
      in case contactNicknames c1 nickname of
           None \<Rightarrow> Inr c1
         | Some a \<Rightarrow>
            if IsPending (heap c1 a) then Inr c1
            else
             (case (if int (UnACKed (heap c1 a)) = MaxMissingMessages ext - 1
                    then doRetransmit ext a c1 else Inr (None, c1)) of
                Inl p \<Rightarrow> Inl p
              | Inr (_, c2) \<Rightarrow>
                 (case frame_payload (DoubleRatchetPayloadLength ext) message of
                    Inl p \<Rightarrow> Inl p
                  | Inr payload \<Rightarrow>
                     (case Encrypt ext (ratchet (heap c2 a)) payload of
                        (ct, r') \<Rightarrow>
                         (let c3 = conv_insert nickname convoMesgID (outMessage\<lparr>Ciphertext := ct\<rparr>)
                                     (c2\<lparr>heap := (heap c2)(a := (heap c2 a)\<lparr>ratchet := r'\<rparr>)\<rparr>)
                          in case spoolWriteDescriptor (heap c3 a) of
                               None \<Rightarrow> Inl RuntimeNilDereference
                             | Some d \<Rightarrow>
                                (case AppendToSpool ext (swd_ID d) ct of
                                   Inl err \<Rightarrow> Inr c3
                                 | Inr appendCmd \<Rightarrow>
                                    (let c4 = c3\<lparr>session_log := session_log c3
                                                   @ [(swd_Receiver d, swd_Provider d, appendCmd)]\<rparr>
                                     in case SendUnreliableMessage ext (length (session_log c3))
                                               (swd_Receiver d) (swd_Provider d) appendCmd of
                                          Inl err \<Rightarrow> Inr c4
                                        | Inr mesgID \<Rightarrow>
                                           (case save ext False
                                                   (c4\<lparr>heap := (heap c4)(a := (heap c4 a)
                                                          \<lparr>UnACKed := UnACKed (heap c4 a) + 1\<rparr>)\<rparr>) of
                                              Inl p \<Rightarrow> Inl p
                                            | Inr c5 \<Rightarrow>
                                               Inr (c5\<lparr>sendMap := (sendMap c5)(ArrayKey mesgID \<mapsto>
                                                      \<lparr>smd_Nickname = nickname,
                                                       smd_MessageID = convoMesgID\<rparr>)\<rparr>)))))))))"

text \<open>
  \<open>SendMessage\<close> draws the conversation id, puts the operation on the worker's queue
  and returns the id; the worker then runs \<open>doSendMessage\<close>. \<open>rnd\<close> is what
  \<open>rand.Reader.Read\<close> returns: its error, if any, and the bytes of the id.
\<close>

definition SendMessage ::
  "'r externals \<Rightarrow> string option \<times> MessageID \<Rightarrow> time \<Rightarrow> string \<Rightarrow> bytes \<Rightarrow> 'r Client
     \<Rightarrow> MessageID \<times> (panic + 'r Client)" where
  "SendMessage ext rnd now nickname message c =
     (let c1 = (case fst rnd of None \<Rightarrow> c
                | Some err \<Rightarrow> c\<lparr>fatalErrCh := fatalErrCh c @ [err]\<rparr>)
      in (snd rnd, doSendMessage ext now (snd rnd) nickname message c1))"

subsection \<open>processPANDAUpdate\<close>

definition emit :: "event \<Rightarrow> 'r Client \<Rightarrow> 'r Client" where
  "emit e c = c\<lparr>eventCh := eventCh c @ [e]\<rparr>"

definition set_contact :: "nat \<Rightarrow> 'r Contact \<Rightarrow> 'r Client \<Rightarrow> 'r Client" where
  "set_contact a k c = c\<lparr>heap := (heap c)(a := k)\<rparr>"

text \<open>
  The restart of the key exchange after \<open>ErrReplyTimeout\<close>: a panic without a PANDA
  configuration or when the stored exchange does not unmarshal, else one more task.
\<close>

definition restart_kx :: "'r externals \<Rightarrow> 'r Contact \<Rightarrow> 'r Client \<Rightarrow> panic + 'r Client" where
  "restart_kx ext contact c =
     (if GetPandaConfig_nil ext
      then Inl (Panic ''panda failed, must have a panda service configured'')
      else case UnmarshalKeyExchange ext (pandaKeyExchange contact) of
             Some e \<Rightarrow> Inl (Panic e)
           | None \<Rightarrow> Inr (c\<lparr>kx_runs := kx_runs c + 1\<rparr>))"

text \<open>
  The two error exits of the \<open>update.Result\<close> case do the same with their error text:
  \<open>pandaResult\<close>, \<open>IsPending = false\<close>, \<open>save\<close>, the event, \<open>return\<close>.
\<close>

definition result_failed ::
  "'r externals \<Rightarrow> nat \<Rightarrow> 'r Contact \<Rightarrow> string \<Rightarrow> 'r Client \<Rightarrow> panic + 'r Client" where
  "result_failed ext a contact err c =
     (case save ext False (set_contact a (contact\<lparr>pandaResult := err, IsPending := False\<rparr>) c) of
        Inl p \<Rightarrow> Inl p
      | Inr c1 \<Rightarrow>
          Inr (emit (KeyExchangeCompletedEvent (Nickname contact) (Some (Error err))) c1))"

definition processPANDAUpdate ::
  "'r externals \<Rightarrow> PandaUpdate \<Rightarrow> 'r Client \<Rightarrow> panic + 'r Client" where
  "processPANDAUpdate ext update c =
     (case map_of (contacts c) (pu_ID update) of
        None \<Rightarrow> Inr c
      | Some a \<Rightarrow>
         (let contact = heap c a in
          case pu_Err update of
            Some err \<Rightarrow>
              (case (if err = ErrReplyTimeout then restart_kx ext contact c else Inr c) of
                 Inl p \<Rightarrow> Inl p
               | Inr c1 \<Rightarrow>
                   save ext False
                     (emit (KeyExchangeCompletedEvent (Nickname contact) (Some err))
                        (set_contact a (contact\<lparr>pandaResult := Error_text ext err,
                                               pandaShutdownChan := False\<rparr>) c1)))
          | None \<Rightarrow>
             (case pu_Serialised update of
                Some serialised \<Rightarrow>
                  if bytes_Equal (pandaKeyExchange contact) (Some serialised)
                  then Inr (emit (KeyExchangeCompletedEvent (Nickname contact)
                              (Some (Error ''strange, our PANDA key exchange echoed our exchange bytes''))) c)
                  else save ext False (set_contact a (contact\<lparr>pandaKeyExchange := Some serialised\<rparr>) c)
              | None \<Rightarrow>
                 (case pu_Result update of
                    Some result \<Rightarrow>
                      (let contact1 = contact\<lparr>pandaKeyExchange := None\<rparr> in
                       case parseContactExchangeBytes ext result of
                         Inl e \<Rightarrow>
                           result_failed ext a contact1
                             (''failure to parse contact exchange bytes: '' @ e) c
                       | Inr exchange \<Rightarrow>
                          (case ProcessKeyExchange ext (ratchet contact1) (ce_SignedKeyExchange exchange) of
                             (Some e, r') \<Rightarrow>
                               result_failed ext a (contact1\<lparr>ratchet := r'\<rparr>)
                                 (''Double ratchet key exchange failure: '' @ e) c
                           | (None, r') \<Rightarrow>
                               save ext False
                                 (emit (KeyExchangeCompletedEvent (Nickname contact) None)
                                    (set_contact a
                                       (contact1\<lparr>ratchet := r',
                                                 spoolWriteDescriptor := ce_SpoolWriteDescriptor exchange,
                                                 IsPending := False\<rparr>) c))))
                  | None \<Rightarrow> save ext False c))))"

text \<open>
  The condition of lines 427 and 428: the update carries a serialised state, and it
  equals the one the contact has.
\<close>

definition state_echo :: "PandaUpdate \<Rightarrow> 'r Contact \<Rightarrow> bool" where
  "state_echo update contact =
     (case pu_Err update of
        Some err \<Rightarrow> False
      | None \<Rightarrow>
         (case pu_Serialised update of
            Some serialised \<Rightarrow> bytes_Equal (pandaKeyExchange contact) (Some serialised)
          | None \<Rightarrow> False))"

subsection \<open>handleReply\<close>

text \<open>
  The acknowledgement of a spool write (lines 670 to 690). The mutex is held from line
  670 to line 683, so the \<open>save\<close> of line 680 is a \<open>save\<close> with the mutex held.
\<close>

definition handle_delivery ::
  "'r externals \<Rightarrow> SentMessageDescriptor \<Rightarrow> 'r Client \<Rightarrow> panic + 'r Client" where
  "handle_delivery ext tp c =
     (case (case conversations c (smd_Nickname tp) of
              None \<Rightarrow> Inr c
            | Some convo \<Rightarrow>
               (case map_of convo (smd_MessageID tp) of
                  None \<Rightarrow> Inr c
                | Some msg \<Rightarrow>
                   (case contactNicknames c (smd_Nickname tp) of
                      None \<Rightarrow> Inl (Panic ''bug'')
                    | Some a \<Rightarrow>
                       if UnACKed (heap c a) > 0
                       then save ext True
                              (conv_insert (smd_Nickname tp) (smd_MessageID tp)
                                 (msg\<lparr>Delivered := True, Ciphertext := []\<rparr>)
                                 (set_contact a ((heap c a)\<lparr>UnACKed := UnACKed (heap c a) - 1\<rparr>) c))
                       else Inl (Panic ''bug'')))) of
        Inl p \<Rightarrow> Inl p
      | Inr c1 \<Rightarrow>
          Inr (emit (MessageDeliveredEvent (smd_Nickname tp) (smd_MessageID tp)) c1))"

text \<open>
  The answer to a read of the spool (lines 693 to 709). \<open>IncrementOffset\<close> is the
  spool descriptor's method: it adds one to the \<open>uint32\<close> offset. \<open>off\<close>, read
  from the four leading bytes of the descriptor's array, is only logged.
\<close>

definition handle_read ::
  "'r externals \<Rightarrow> string option \<times> MessageID \<Rightarrow> time \<Rightarrow> SpoolResponse \<Rightarrow> 'r Client
     \<Rightarrow> panic + 'r Client" where
  "handle_read ext rnd now spoolResponse c =
     (if sr_MessageID spoolResponse < ReadOffset c then Inr c
      else if sr_MessageID spoolResponse = ReadOffset c
      then (case decryptMessage ext rnd now (sr_Message spoolResponse)
                   (c\<lparr>ReadOffset := ReadOffset c + 1\<rparr>) of
              Inl p \<Rightarrow> Inl p
            | Inr (c1, decrypted) \<Rightarrow>
                if decrypted then Inr c1
                else Inl (Panic ''failure to decrypt tip of spool''))
      else Inl (Panic ''received spool response for MessageID not requested yet''))"

text \<open>
  \<open>handleReply\<close>. The entry is loaded under the transport id by value. The deferred
  \<open>c.sendMap.Delete(replyEvent.MessageID)\<close> is given the pointer, and runs on every
  return.
\<close>

definition sendMap_Delete :: "sendMap_key \<Rightarrow> 'r Client \<Rightarrow> 'r Client" where
  "sendMap_Delete k c = c\<lparr>sendMap := (sendMap c)(k := None)\<rparr>"

definition handleReply ::
  "'r externals \<Rightarrow> string option \<times> MessageID \<Rightarrow> time \<Rightarrow> MessageReplyEvent \<Rightarrow> 'r Client
     \<Rightarrow> panic + 'r Client" where
  "handleReply ext rnd now replyEvent c =
     (case sendMap c (ArrayKey (mre_MessageID replyEvent)) of
        None \<Rightarrow> Inr c
      | Some tp \<Rightarrow>
         (case (case SpoolResponseFromBytes ext (mre_Payload replyEvent) of
                  Inl err \<Rightarrow>
                    Inr (c\<lparr>fatalErrCh := fatalErrCh c
                              @ [''BUG, invalid spool response, error is '' @ err]\<rparr>)
                | Inr spoolResponse \<Rightarrow>
                    if \<not> sr_IsOK spoolResponse then Inr c
                    else if smd_Nickname tp \<noteq> user c then handle_delivery ext tp c
                    else handle_read ext rnd now spoolResponse c) of
            Inl p \<Rightarrow> Inl p
          | Inr c1 \<Rightarrow> Inr (sendMap_Delete (PointerKey (mre_MessageID_ptr replyEvent)) c1)))"

text \<open>A run of reply events, each with its own random bytes and clock reading.\<close>

fun handleReplies ::
  "'r externals \<Rightarrow> ((string option \<times> MessageID) \<times> time \<times> MessageReplyEvent) list \<Rightarrow> 'r Client
     \<Rightarrow> panic + 'r Client" where
  "handleReplies ext [] c = Inr c"
| "handleReplies ext ((rnd, now, ev) # evs) c =
     (case handleReply ext rnd now ev c of
        Inl p \<Rightarrow> Inl p
      | Inr c1 \<Rightarrow> handleReplies ext evs c1)"

text \<open>
  The worker takes one operation at a time from its queue. Here the operations are a
  \<open>SendMessage\<close> already given its conversation id, and a reply event of the session.
\<close>

datatype operation =
    SendOp time MessageID string bytes
  | ReplyOp "string option \<times> MessageID" time MessageReplyEvent

fun run :: "'r externals \<Rightarrow> operation list \<Rightarrow> 'r Client \<Rightarrow> panic + 'r Client" where
  "run ext [] c = Inr c"
| "run ext (SendOp now mid nickname message # ops) c =
     (case doSendMessage ext now mid nickname message c of
        Inl p \<Rightarrow> Inl p
      | Inr c1 \<Rightarrow> run ext ops c1)"
| "run ext (ReplyOp rnd now ev # ops) c =
     (case handleReply ext rnd now ev c of
        Inl p \<Rightarrow> Inl p
      | Inr c1 \<Rightarrow> run ext ops c1)"

text \<open>The number of \<open>MessageReceived\<close> events emitted so far.\<close>

fun is_received :: "event \<Rightarrow> bool" where
  "is_received (MessageReceivedEvent nickname plaintext t) = True"
| "is_received e = False"

definition received :: "'r Client \<Rightarrow> nat" where
  "received c = length (filter is_received (eventCh c))"

text \<open>
  Three properties of a client that the runs below keep. The nickname index agrees with
  the contacts: a contact found under a nickname carries that nickname. Nothing is
  marked sent: \<open>Sent\<close> is set only at line 634, by \<open>handleSent\<close>, which then calls
  \<open>save\<close> at line 636 with \<open>conversationsMutex\<close> held since line 631 and so never
  returns. Every contact of the index is within the window.
\<close>

definition nicknames_agree :: "'r Client \<Rightarrow> bool" where
  "nicknames_agree c = (\<forall>n a. contactNicknames c n = Some a \<longrightarrow> Nickname (heap c a) = n)"

definition nothing_sent :: "'r Client \<Rightarrow> bool" where
  "nothing_sent c =
     (\<forall>n convo mid msg. conversations c n = Some convo \<longrightarrow> (mid, msg) \<in> set convo \<longrightarrow> \<not> Sent msg)"

definition within_window :: "'r externals \<Rightarrow> 'r Client \<Rightarrow> bool" where
  "within_window ext c =
     (\<forall>n a. contactNicknames c n = Some a \<longrightarrow>
        int (UnACKed (heap c a)) \<le> MaxMissingMessages ext - 1)"

section \<open>A concrete instance\<close>

text \<open>
  \<open>sort.Sort\<close> on a short slice (at most twelve elements in Go 1.12, the version of
  go.mod): one pass that compares elements six apart, then \<open>insertionSort\<close>, which
  moves each element left while \<open>Less(j, j-1)\<close>. On at most six elements it is the
  insertion sort alone.
\<close>

fun insertion_inner ::
  "(msgWithID list \<Rightarrow> nat \<Rightarrow> nat \<Rightarrow> bool) \<Rightarrow> nat \<Rightarrow> nat \<Rightarrow> msgWithID list \<Rightarrow> msgWithID list" where
  "insertion_inner lt a 0 d = d"
| "insertion_inner lt a (Suc j) d =
     (if a < Suc j \<and> lt d (Suc j) j
      then insertion_inner lt a j (Messages_Swap d (Suc j) j) else d)"

definition insertionSort ::
  "(msgWithID list \<Rightarrow> nat \<Rightarrow> nat \<Rightarrow> bool) \<Rightarrow> msgWithID list \<Rightarrow> nat \<Rightarrow> nat \<Rightarrow> msgWithID list" where
  "insertionSort lt d a b = fold (\<lambda>i d. insertion_inner lt a i d) [a + 1..<b] d"

definition sort_short ::
  "(msgWithID list \<Rightarrow> nat \<Rightarrow> nat \<Rightarrow> bool) \<Rightarrow> msgWithID list \<Rightarrow> msgWithID list" where
  "sort_short lt d =
     (let n = Messages_Len d in
      if 1 < n
      then insertionSort lt
             (fold (\<lambda>i d. if lt d i (i - 6) then Messages_Swap d i (i - 6) else d) [6..<n] d) 0 n
      else d)"

text \<open>
  Stand-ins for the collaborators, small enough to compute with: a ratchet that
  counts its calls, encrypts to the payload itself and decrypts every non-empty
  ciphertext to itself; a spool codec whose append command is the spool id followed by
  the ciphertext and whose response is a status byte, a four-byte message id and the
  message; a session that numbers its transport ids; a parser that takes the first
  byte of the result as the spool id of the peer. \<open>MaxMissingMessages\<close> is 17, so
  that the window is 16, and the payload has 8 bytes.
\<close>

definition toy_parse :: "bytes \<Rightarrow> string + contactExchange" where
  "toy_parse b =
     (case b of
        [] \<Rightarrow> Inl ''EOF''
      | x # kx \<Rightarrow> Inr \<lparr>ce_SpoolWriteDescriptor =
                          Some \<lparr>swd_ID = [x], swd_Receiver = ''spool'', swd_Provider = ''provider''\<rparr>,
                        ce_SignedKeyExchange = kx\<rparr>)"

definition toy_response :: "bytes \<Rightarrow> string + SpoolResponse" where
  "toy_response b =
     (case b of
        [] \<Rightarrow> Inl ''short response''
      | st # rest \<Rightarrow>
         (case BigEndian_Uint32 (take 4 rest) of
            Inl p \<Rightarrow> Inl ''short response''
          | Inr n \<Rightarrow> Inr \<lparr>sr_MessageID = n, sr_IsOK = (st = 0), sr_Message = drop 4 rest\<rparr>))"

definition toy_ext :: "nat externals" where
  "toy_ext =
     \<lparr>MaxMissingMessages = 17,
      DoubleRatchetPayloadLength = 8,
      Encrypt = (\<lambda>r p. (p, r + 1)),
      Decrypt = (\<lambda>r ct. (if ct = [] then Inl ''decrypt failed'' else Inr (slice_of ct), r + 1)),
      ProcessKeyExchange = (\<lambda>r kx. (if kx = [] then Some ''no key exchange'' else None, r + 1)),
      parseContactExchangeBytes = toy_parse,
      AppendToSpool = (\<lambda>spool ct. Inr (spool @ ct)),
      SpoolResponseFromBytes = toy_response,
      SendUnreliableMessage = (\<lambda>n receiver provider cmd. Inr [of_nat n]),
      GetPandaConfig_nil = False,
      UnmarshalKeyExchange = (\<lambda>kx. None),
      Error_text = (\<lambda>e. case e of ErrReplyTimeout \<Rightarrow> ''reply timeout'' | Error t \<Rightarrow> t),
      writeState = (\<lambda>n. True),
      sort_Sort = sort_short,
      append_cap = (\<lambda>n. n)\<rparr>"

text \<open>
  Two contacts: bob, established, with a descriptor for his spool, and carol, whose
  key exchange is pending. The client of alice knows both and has no conversation yet.
\<close>

definition bob :: "nat Contact" where
  "bob = \<lparr>cid = 1, Nickname = ''bob'', IsPending = False, UnACKed = 0,
          pandaKeyExchange = None, pandaResult = [], pandaShutdownChan = False, ratchet = 0,
          spoolWriteDescriptor =
            Some \<lparr>swd_ID = [7], swd_Receiver = ''spool'', swd_Provider = ''provider''\<rparr>\<rparr>"

definition carol :: "nat Contact" where
  "carol = \<lparr>cid = 2, Nickname = ''carol'', IsPending = True, UnACKed = 0,
            pandaKeyExchange = Some [1, 2, 3], pandaResult = [], pandaShutdownChan = True,
            ratchet = 0, spoolWriteDescriptor = None\<rparr>"

definition alice :: "nat Client" where
  "alice = \<lparr>user = ''alice'',
            heap = (\<lambda>a. if a = 0 then bob else carol),
            contacts = [(1, 0), (2, 1)],
            contactNicknames = [''bob'' \<mapsto> 0, ''carol'' \<mapsto> 1],
            ReadOffset = 5,
            conversations = Map.empty,
            sendMap = Map.empty,
            eventCh = [],
            fatalErrCh = [],
            session_log = [],
            saves = 0,
            kx_runs = 0\<rparr>"

text \<open>
  States of alice used below. \<open>alice_unsent\<close>: one message to bob is stored but the
  session has not reported it sent. \<open>alice_tracked\<close>: the transport id \<open>[0]\<close> is
  tracked for bob's message \<open>[1]\<close>, which is no longer in any conversation.
  \<open>alice_reading\<close>: the transport ids \<open>[0]\<close> and \<open>[1]\<close> are tracked as reads of
  slot 5 of alice's own spool.
\<close>

definition outbound :: "bytes \<Rightarrow> time \<Rightarrow> bool \<Rightarrow> Message" where
  "outbound ct t was_sent =
     \<lparr>Plaintext = [], Ciphertext = ct, Timestamp = t, Outbound = True,
      Sent = was_sent, Delivered = False\<rparr>"

definition alice_unsent :: "nat Client" where
  "alice_unsent = alice\<lparr>conversations := [''bob'' \<mapsto> [([1], outbound [42] 10 False)]]\<rparr>"

definition alice_three :: "nat Client" where
  "alice_three = alice\<lparr>conversations := [''bob'' \<mapsto>
     [([1], outbound [41] 10 True), ([2], outbound [42] 11 True), ([3], outbound [43] 12 True)]]\<rparr>"

definition alice_tracked :: "nat Client" where
  "alice_tracked =
     alice\<lparr>sendMap := [ArrayKey [0] \<mapsto> \<lparr>smd_Nickname = ''bob'', smd_MessageID = [1]\<rparr>]\<rparr>"

definition read_of_5 :: SentMessageDescriptor where
  "read_of_5 = \<lparr>smd_Nickname = ''alice'', smd_MessageID = [0, 0, 0, 5]\<rparr>"

definition alice_reading :: "nat Client" where
  "alice_reading = alice\<lparr>sendMap := [ArrayKey [0] \<mapsto> read_of_5, ArrayKey [1] \<mapsto> read_of_5]\<rparr>"

text \<open>
  \<open>alice_ties\<close>: four messages to bob are reported sent, two of them
  with the same timestamp. \<open>alice_unsorted\<close>: five messages to bob are reported
  sent, and the \<open>range\<close> visits them out of the order of their timestamps.
  \<open>alice_ghost\<close>: alice holds conversations with bob and with ghost, who is not a
  contact. \<open>alice_last_slot\<close>: alice reads the last slot a \<open>uint32\<close> counts.
\<close>

definition alice_unsorted :: "nat Client" where
  "alice_unsorted = alice\<lparr>conversations := [''bob'' \<mapsto>
       [([1], outbound [41] 9 True), ([2], outbound [42] 3 True),
        ([3], outbound [43] 7 True), ([4], outbound [44] 1 True),
        ([5], outbound [45] 5 True)]]\<rparr>"

definition alice_ghost :: "nat Client" where
  "alice_ghost = alice\<lparr>conversations :=
       [''ghost'' \<mapsto> [([3], outbound [] 1 False)],
        ''bob'' \<mapsto> [([1], outbound [42] 10 False)]]\<rparr>"

text \<open>Sends to bob, numbered from \<open>i\<close> to \<open>j - 1\<close>.\<close>

definition sends_to_bob :: "nat \<Rightarrow> nat \<Rightarrow> operation list" where
  "sends_to_bob i j = map (\<lambda>k. SendOp (int k) [of_nat k] ''bob'' [72, 105]) [i..<j]"

definition alice_ties :: "nat Client" where
  "alice_ties = alice\<lparr>conversations := [''bob'' \<mapsto>
       [([9], outbound [49] 5 True), ([1], outbound [41] 5 True),
        ([10], outbound [50] 6 True), ([11], outbound [51] 7 True)]]\<rparr>"

definition alice_last_slot :: "nat Client" where
  "alice_last_slot = alice\<lparr>ReadOffset := 0xFFFFFFFF,
     sendMap := [ArrayKey [0] \<mapsto>
       \<lparr>smd_Nickname = ''alice'', smd_MessageID = [255, 255, 255, 255]\<rparr>]\<rparr>"

text \<open>The updates of carol's key exchange and the reply events used below.\<close>

definition kx_result :: "bytes \<Rightarrow> PandaUpdate" where
  "kx_result r = \<lparr>pu_ID = 2, pu_Err = None, pu_Serialised = None, pu_Result = Some r\<rparr>"

definition kx_progress :: "bytes \<Rightarrow> PandaUpdate" where
  "kx_progress st = \<lparr>pu_ID = 2, pu_Err = None, pu_Serialised = Some st, pu_Result = None\<rparr>"

definition reply :: "nat \<Rightarrow> transport_id \<Rightarrow> bytes \<Rightarrow> MessageReplyEvent" where
  "reply p tid payload = \<lparr>mre_MessageID_ptr = p, mre_MessageID = tid, mre_Payload = payload\<rparr>"

lemmas go_defs =
  slice_expr_def slice_of_def BigEndian_Uint32_def BigEndian_PutUint32_def bytes_Equal_def
  go_copy_def frame_payload_def

lemma upt_small:
  "[Suc 0..<3] = [1, 2]" "[6..<3] = []" "[Suc 0..<4] = [1, 2, 3]" "[6..<4] = []"
  by (simp_all add: upt_rec)

lemmas op_defs =
  decryptMessage_def doRetransmit_def doSendMessage_def SendMessage_def
  processPANDAUpdate_def handleReply_def handle_read_def handle_delivery_def save_def
  conv_insert_def emit_def set_contact_def restart_kx_def result_failed_def
  sendMap_Delete_def undelivered_def rTx_cap_def someLimit_def

lemmas sort_defs =
  Messages_Less_def Messages_Swap_def Messages_Len_def sort_short_def insertionSort_def

lemmas toy_defs =
  toy_ext_def toy_parse_def toy_response_def alice_def bob_def carol_def outbound_def
  alice_unsent_def alice_three_def alice_tracked_def alice_reading_def read_of_5_def
  alice_unsorted_def alice_ghost_def alice_ties_def alice_last_slot_def
  kx_result_def kx_progress_def reply_def

section \<open>Trial decryption\<close>

text \<open>
  C1. Trial decryption never panics on peer-originated data: for every plaintext that
  an established contact's ratchet returns, \<open>4 + payloadLen \<le> len(plaintext)\<close>, so
  \<open>decryptMessage\<close> completes.

  The code does not check the length prefix. Bob's ratchet decrypts the ciphertext
  below to the four bytes \<open>ff ff ff ff\<close>: \<open>4 + payloadLen\<close> is 3 in \<open>uint32\<close>, and
  \<open>plaintext[4:3]\<close> panics whatever capacity the plaintext has (\<open>spare\<close> is what
  follows it in its backing array). A prefix of 5 in front of one byte of payload
  panics when the plaintext fills its array.
\<close>

theorem decryptMessage_panics_on_length_prefix:
  "decryptMessage
     (toy_ext\<lparr>Decrypt := (\<lambda>r ct. (Inr \<lparr>gs_array = ct @ spare, gs_len = length ct\<rparr>, r))\<rparr>)
     (None, [9]) 100 [255, 255, 255, 255] alice = Inl RuntimeOutOfRange
   \<and> decryptMessage toy_ext (None, [9]) 100 [0, 0, 0, 5, 65] alice = Inl RuntimeOutOfRange"
  by (simp add: decryptMessage_def toy_defs go_defs)

section \<open>Retransmission\<close>

text \<open>
  C2. Retransmission resubmits at most 4 undelivered messages and tolerates any
  candidate count: \<open>doRetransmit\<close> submits \<open>min(4, n)\<close> spool-append commands for
  \<open>n\<close> candidates and completes without panicking, also for \<open>n < 4\<close> and \<open>n = 0\<close>.

  The code slices \<open>rTx[:someLimit]\<close> without looking at the length of \<open>rTx\<close>.
  With no candidate the slice has capacity 0 and the expression panics. With three
  candidates it panics when \<open>append\<close> left a capacity of three, and otherwise the
  fourth element of the slice is a nil pointer, dereferenced in the loop: whatever
  capacity \<open>g\<close> the runtime chose, the operation panics.
\<close>

theorem doRetransmit_panics_below_someLimit:
  "doRetransmit toy_ext 0 alice_unsent = Inl RuntimeOutOfRange
   \<and> doRetransmit (toy_ext\<lparr>append_cap := g\<rparr>) 0 alice_three
       \<in> {Inl RuntimeOutOfRange, Inl RuntimeNilDereference}"
  by (simp add: op_defs toy_defs go_defs sort_defs upt_small max_def Let_def)

section \<open>Replies\<close>

text \<open>
  C10. Each spool reply is processed at most once: after \<open>handleReply\<close> has
  processed a reply for a transport id, the \<open>sendMap\<close> entry under that id is
  removed, so a second reply with the same transport id has no effect, and no second
  \<open>MessageDelivered\<close> is emitted.

  The entry is stored under the array \<open>*mesgID\<close>, and the deferred \<open>Delete\<close> is
  given the pointer \<open>replyEvent.MessageID\<close>, a key no entry has. Below, the transport
  id \<open>[0]\<close> is answered twice: the entry is still there after both replies, and both
  emit \<open>MessageDelivered\<close>.
\<close>

theorem handleReply_keeps_sendMap_entry:
  "(case handleReplies toy_ext
           [((None, [9]), 100, reply 7 [0] [0, 0, 0, 0, 0]),
            ((None, [9]), 101, reply 8 [0] [0, 0, 0, 0, 0])] alice_tracked of
      Inl p \<Rightarrow> False
    | Inr c \<Rightarrow>
        eventCh c = [MessageDeliveredEvent ''bob'' [1], MessageDeliveredEvent ''bob'' [1]]
        \<and> sendMap c (ArrayKey [0]) = Some \<lparr>smd_Nickname = ''bob'', smd_MessageID = [1]\<rparr>)"
  by (simp add: op_defs toy_defs go_defs)

section \<open>Sending\<close>

subsection \<open>Framing\<close>

lemma be32_bit:
  fixes v :: "32 word"
  assumes "n < 32"
  shows "bit (ucast (ucast v :: byte) OR push_bit 8 (ucast (ucast (drop_bit 8 v) :: byte))
     OR push_bit 16 (ucast (ucast (drop_bit 16 v) :: byte))
     OR push_bit 24 (ucast (ucast (drop_bit 24 v) :: byte)) :: 32 word) n = bit v n"
proof -
  consider "n < 8" | "8 \<le> n \<and> n < 16" | "16 \<le> n \<and> n < 24" | "24 \<le> n \<and> n < 32"
    using assms by arith
  then show ?thesis
  proof cases
    case 1 then show ?thesis by (simp add: bit_simps)
  next
    case 2 then show ?thesis by (auto simp add: bit_simps)
  next
    case 3 then show ?thesis by (auto simp add: bit_simps)
  next
    case 4 then show ?thesis by (auto simp add: bit_simps)
  qed
qed

lemma be32_roundtrip:
  "ucast (ucast v :: byte) OR push_bit 8 (ucast (ucast (drop_bit 8 v) :: byte))
     OR push_bit 16 (ucast (ucast (drop_bit 16 v) :: byte))
     OR push_bit 24 (ucast (ucast (drop_bit 24 v) :: byte)) = (v :: 32 word)"
  by (rule bit_word_eqI) (simp add: be32_bit)

lemma frame_payload_eq:
  "4 \<le> n \<Longrightarrow> frame_payload n message =
     Inr (be32 (of_nat (length message)) @ take (n - 4) message @ replicate (n - 4 - length message) 0)"
  by (simp add: frame_payload_def BigEndian_PutUint32_def go_copy_def be32_def Let_def)

lemma unat_4_plus:
  "k + 4 < 2 ^ 32 \<Longrightarrow> unat (4 + of_nat k :: 32 word) = 4 + k"
  by (simp add: unat_word_ariths unat_of_nat)

text \<open>
  C4. Send framing: the payload is framed into a buffer of
  \<open>DoubleRatchetPayloadLength\<close> bytes as a big-endian 32-bit length followed by the
  zero-padded plaintext, and a plaintext longer than \<open>DoubleRatchetPayloadLength - 4\<close>
  fails with \<open>PayloadTooLarge\<close>.

  As stated this fails: \<open>doSendMessage\<close> has no length check and no such error. With
  a payload of 8 bytes, a plaintext of 5 bytes is sent: the frame submitted to bob's
  spool (after the spool id 7) carries the length 5 and the first four bytes.
\<close>

theorem doSendMessage_frames_long_plaintext:
  "(case doSendMessage toy_ext 10 [1] ''bob'' [1, 2, 3, 4, 5] alice of
      Inl p \<Rightarrow> False
    | Inr c \<Rightarrow> session_log c = [(''spool'', ''provider'', [7, 0, 0, 0, 5, 1, 2, 3, 4])])
   \<and> DoubleRatchetPayloadLength toy_ext - 4 < length [1, 2, 3, 4, 5 :: byte]"
  by (simp add: op_defs toy_defs go_defs)

text \<open>
  C4, as the code has it: the framing never fails and always gives a buffer of
  \<open>n = DoubleRatchetPayloadLength\<close> bytes, since \<open>doSendMessage\<close> checks no length
  and returns no error. For a plaintext of at most \<open>n - 4\<close> bytes the buffer is the
  length of the plaintext as a big-endian \<open>uint32\<close>, the plaintext and zeros, and the
  slice \<open>decryptMessage\<close> takes of it is the plaintext again. (Go compiles the
  framing only for \<open>n \<ge> 4\<close>.)
\<close>

theorem frame_payload_frames:
  assumes "4 \<le> n"
  shows "\<exists>f. frame_payload n message = Inr f \<and> length f = n
           \<and> (length message \<le> n - 4 \<and> n < 2 ^ 32 \<longrightarrow>
                f = be32 (of_nat (length message)) @ message @ replicate (n - 4 - length message) 0
                \<and> BigEndian_Uint32 (take 4 f) = Inr (of_nat (length message))
                \<and> slice_expr (slice_of f) 4 (unat (4 + of_nat (length message) :: 32 word)) = Inr message)"
proof -
  let ?f = "be32 (of_nat (length message)) @ take (n - 4) message @ replicate (n - 4 - length message) 0"
  have 1: "frame_payload n message = Inr ?f" using assms by (rule frame_payload_eq)
  have 2: "length ?f = n" using assms by (simp add: be32_def min_def)
  have 3: "BigEndian_Uint32 (take 4 ?f) = Inr (of_nat (length message))"
    by (simp add: be32_def BigEndian_Uint32_def be32_roundtrip)
  have 4: "?f = be32 (of_nat (length message)) @ message @ replicate (n - 4 - length message) 0"
    if "length message \<le> n - 4"
    using that by simp
  have 5: "slice_expr (slice_of ?f) 4 (unat (4 + of_nat (length message) :: 32 word)) = Inr message"
    if "length message \<le> n - 4" "n < 2 ^ 32"
  proof -
    have "length message + 4 < 2 ^ 32" using that assms by arith
    then have "unat (4 + of_nat (length message) :: 32 word) = 4 + length message"
      by (rule unat_4_plus)
    then show ?thesis using that assms by (simp add: slice_expr_def slice_of_def be32_def)
  qed
  show ?thesis
  proof (intro exI conjI impI)
    show "frame_payload n message = Inr ?f" by (rule 1)
    show "length ?f = n" by (rule 2)
    show "BigEndian_Uint32 (take 4 ?f) = Inr (of_nat (length message))" by (rule 3)
    assume a: "length message \<le> n - 4 \<and> n < 2 ^ 32"
    show "?f = be32 (of_nat (length message)) @ message @ replicate (n - 4 - length message) 0"
      using 4 a by blast
    show "slice_expr (slice_of ?f) 4 (unat (4 + of_nat (length message) :: 32 word)) = Inr message"
      using 5 a by blast
  qed
qed

theorem frame_payload_frames_witness:
  "(4 :: nat) \<le> 8 \<and> length [72, 105 :: byte] \<le> 8 - 4 \<and> (8 :: nat) < 2 ^ 32
   \<and> frame_payload 8 [72, 105] = Inr [0, 0, 0, 2, 72, 105, 0, 0]
   \<and> BigEndian_Uint32 (take 4 [0, 0, 0, 2, 72, 105, 0, 0])
       = Inr (of_nat (length [72, 105 :: byte]))
   \<and> slice_expr (slice_of [0, 0, 0, 2, 72, 105, 0, 0]) 4
        (unat (4 + of_nat (length [72, 105 :: byte]) :: 32 word)) = Inr [72, 105]"
proof -
  have h: "(4 :: nat) \<le> 8" by simp
  obtain f where f: "frame_payload 8 [72, 105] = Inr f"
    and r: "length [72, 105 :: byte] \<le> 8 - 4 \<and> (8 :: nat) < 2 ^ 32 \<longrightarrow>
       f = be32 (of_nat (length [72, 105 :: byte])) @ [72, 105] @ replicate (8 - 4 - length [72, 105 :: byte]) 0
       \<and> BigEndian_Uint32 (take 4 f) = Inr (of_nat (length [72, 105 :: byte]))
       \<and> slice_expr (slice_of f) 4 (unat (4 + of_nat (length [72, 105 :: byte]) :: 32 word)) = Inr [72, 105]"
    using frame_payload_frames [OF h, of "[72, 105]"] by blast
  have e: "be32 (of_nat (length [72, 105 :: byte])) @ [72, 105]
             @ replicate (8 - 4 - length [72, 105 :: byte]) 0 = [0, 0, 0, 2, 72, 105, 0, 0]"
    by code_simp
  have "length [72, 105 :: byte] \<le> 8 - 4 \<and> (8 :: nat) < 2 ^ 32" by simp
  with r e have "f = [0, 0, 0, 2, 72, 105, 0, 0]"
    and "BigEndian_Uint32 (take 4 f) = Inr (of_nat (length [72, 105 :: byte]))"
    and "slice_expr (slice_of f) 4 (unat (4 + of_nat (length [72, 105 :: byte]) :: 32 word))
           = Inr [72, 105]"
    by (metis, metis, metis)
  with f show ?thesis by simp
qed

subsection \<open>An unknown recipient\<close>

text \<open>
  C8. Send to an unknown recipient: for every nickname absent from the contact store,
  \<open>SendMessage\<close> returns the conversation id it drew and inserts into the
  conversation of that nickname an outbound message under that id with
  \<open>sent = false\<close> and \<open>delivered = false\<close>: the conversation maps the id to the
  new message and every other id to what it held before, and the conversations of the
  other nicknames are as they were. Nothing is submitted to the session and no event
  is emitted. (Nor is anything tracked, changed in a contact or in the read offset, or
  saved.)
\<close>

theorem SendMessage_unknown_recipient:
  assumes "contactNicknames c nickname = None"
  shows "fst (SendMessage ext rnd now nickname payload c) = snd rnd
     \<and> (\<exists>c'. snd (SendMessage ext rnd now nickname payload c) = Inr c'
           \<and> (\<exists>convo. conversations c' nickname = Some convo
                 \<and> map_of convo =
                     (map_of (case conversations c nickname of None \<Rightarrow> [] | Some cm \<Rightarrow> cm))
                       (snd rnd \<mapsto> \<lparr>Plaintext = payload, Ciphertext = [], Timestamp = now,
                                     Outbound = True, Sent = False, Delivered = False\<rparr>))
           \<and> (\<forall>n. n \<noteq> nickname \<longrightarrow> conversations c' n = conversations c n)
           \<and> session_log c' = session_log c
           \<and> eventCh c' = eventCh c
           \<and> sendMap c' = sendMap c
           \<and> heap c' = heap c
           \<and> contacts c' = contacts c
           \<and> contactNicknames c' = contactNicknames c
           \<and> ReadOffset c' = ReadOffset c
           \<and> saves c' = saves c)"
  using assms
  by (cases "fst rnd") (simp_all add: SendMessage_def doSendMessage_def conv_insert_def update_conv')

theorem SendMessage_unknown_recipient_witness:
  "contactNicknames alice_ghost ''ghost'' = None
   \<and> fst (SendMessage toy_ext (None, [9]) 10 ''ghost'' [104, 105] alice_ghost) = [9]
   \<and> (\<exists>c'. snd (SendMessage toy_ext (None, [9]) 10 ''ghost'' [104, 105] alice_ghost) = Inr c'
         \<and> (\<exists>convo. conversations c' ''ghost'' = Some convo
               \<and> map_of convo [9] =
                   Some \<lparr>Plaintext = [104, 105], Ciphertext = [], Timestamp = 10,
                         Outbound = True, Sent = False, Delivered = False\<rparr>
               \<and> map_of convo [3] = Some (outbound [] 1 False))
         \<and> conversations c' ''bob'' = Some [([1], outbound [42] 10 False)]
         \<and> session_log c' = session_log alice_ghost \<and> eventCh c' = eventCh alice_ghost)"
proof -
  have h: "contactNicknames alice_ghost ''ghost'' = None" by (simp add: alice_ghost_def alice_def)
  have g: "conversations alice_ghost ''ghost'' = Some [([3], outbound [] 1 False)]"
    and b: "conversations alice_ghost ''bob'' = Some [([1], outbound [42] 10 False)]"
    by (simp_all add: alice_ghost_def)
  from SendMessage_unknown_recipient [OF h, of toy_ext "(None, [9])" 10 "[104, 105]"]
  obtain c' convo where f: "fst (SendMessage toy_ext (None, [9]) 10 ''ghost'' [104, 105] alice_ghost) = [9]"
    and r: "snd (SendMessage toy_ext (None, [9]) 10 ''ghost'' [104, 105] alice_ghost) = Inr c'"
    and cv: "conversations c' ''ghost'' = Some convo"
    and m: "map_of convo = (map_of [([3], outbound [] 1 False)])
              ([9] \<mapsto> \<lparr>Plaintext = [104, 105], Ciphertext = [], Timestamp = 10,
                         Outbound = True, Sent = False, Delivered = False\<rparr>)"
    and o: "\<forall>n. n \<noteq> ''ghost'' \<longrightarrow> conversations c' n = conversations alice_ghost n"
    and l: "session_log c' = session_log alice_ghost" and e: "eventCh c' = eventCh alice_ghost"
    unfolding g by auto
  from m have m9: "map_of convo [9] = Some \<lparr>Plaintext = [104, 105], Ciphertext = [], Timestamp = 10,
                         Outbound = True, Sent = False, Delivered = False\<rparr>"
    and m3: "map_of convo [3] = Some (outbound [] 1 False)"
    by simp_all
  from o b have ob: "conversations c' ''bob'' = Some [([1], outbound [42] 10 False)]" by simp
  from h f r cv m9 m3 ob l e show ?thesis by blast
qed

section \<open>Key exchange updates\<close>

lemma save_Inr: "save ext held c = Inr c' \<Longrightarrow> c' = c\<lparr>saves := saves c + 1\<rparr>"
  by (auto simp: save_def split: if_splits)

lemma result_failed_Inr:
  "result_failed ext a k err c = Inr c' \<Longrightarrow>
     c' = emit (KeyExchangeCompletedEvent (Nickname k) (Some (Error err)))
            ((set_contact a (k\<lparr>pandaResult := err, IsPending := False\<rparr>) c)\<lparr>saves := saves c + 1\<rparr>)"
  by (auto simp: result_failed_def set_contact_def dest!: save_Inr split: sum.splits)

text \<open>
  C5. Established-contact invariant under key-exchange outcomes: a contact that
  becomes established (\<open>IsPending = false\<close>) has a spool write descriptor and an
  initialised ratchet; when the parser or the ratchet fails in the Success branch the
  Failure path applies, so the contact stays pending, with \<open>pandaResult\<close> set.

  As stated this fails: both error exits of the Success branch set
  \<open>IsPending = false\<close> themselves. Carol is pending; a result that does not parse,
  and one whose key exchange the ratchet refuses, each leave her not pending and
  without a spool write descriptor.
\<close>

theorem processPANDAUpdate_failed_result_not_pending:
  "(case processPANDAUpdate toy_ext (kx_result []) alice of
      Inl p \<Rightarrow> False
    | Inr c \<Rightarrow> \<not> IsPending (heap c 1) \<and> spoolWriteDescriptor (heap c 1) = None
        \<and> pandaResult (heap c 1) = ''failure to parse contact exchange bytes: EOF'')
   \<and> (case processPANDAUpdate toy_ext (kx_result [7]) alice of
      Inl p \<Rightarrow> False
    | Inr c \<Rightarrow> \<not> IsPending (heap c 1) \<and> spoolWriteDescriptor (heap c 1) = None
        \<and> pandaResult (heap c 1) = ''Double ratchet key exchange failure: no key exchange'')
   \<and> IsPending (heap alice 1)"
  by (simp add: op_defs toy_defs go_defs)

text \<open>
  C5, as the code has it, for an update of a known contact that returns. A Success
  update always ends the pending state and clears the stored exchange. When the result
  parses and the ratchet accepts the signed key exchange, the contact's spool write
  descriptor is the one of the parsed exchange and its ratchet is the one that
  processed the key exchange. When the parser or the ratchet fails, \<open>pandaResult\<close>
  is the error text and the descriptor is left as it was. Only a Failure update
  (\<open>update.Err\<close>) and a Progress update leave \<open>IsPending\<close> as it was.
\<close>

theorem processPANDAUpdate_pending:
  assumes "map_of (contacts c) (pu_ID update) = Some a"
      and "processPANDAUpdate ext update c = Inr c'"
  shows "(case pu_Err update of
            Some err \<Rightarrow>
              IsPending (heap c' a) = IsPending (heap c a)
              \<and> pandaResult (heap c' a) = Error_text ext err
              \<and> spoolWriteDescriptor (heap c' a) = spoolWriteDescriptor (heap c a)
          | None \<Rightarrow>
             (case pu_Serialised update of
                Some serialised \<Rightarrow>
                  IsPending (heap c' a) = IsPending (heap c a)
                  \<and> spoolWriteDescriptor (heap c' a) = spoolWriteDescriptor (heap c a)
              | None \<Rightarrow>
                 (case pu_Result update of
                    None \<Rightarrow> heap c' = heap c
                  | Some result \<Rightarrow>
                     \<not> IsPending (heap c' a) \<and> pandaKeyExchange (heap c' a) = None \<and>
                     (case parseContactExchangeBytes ext result of
                        Inl e \<Rightarrow>
                          pandaResult (heap c' a) = ''failure to parse contact exchange bytes: '' @ e
                          \<and> spoolWriteDescriptor (heap c' a) = spoolWriteDescriptor (heap c a)
                          \<and> ratchet (heap c' a) = ratchet (heap c a)
                      | Inr exchange \<Rightarrow>
                         (case ProcessKeyExchange ext (ratchet (heap c a)) (ce_SignedKeyExchange exchange) of
                            (Some e, r') \<Rightarrow>
                              pandaResult (heap c' a) = ''Double ratchet key exchange failure: '' @ e
                              \<and> spoolWriteDescriptor (heap c' a) = spoolWriteDescriptor (heap c a)
                          | (None, r') \<Rightarrow>
                              spoolWriteDescriptor (heap c' a) = ce_SpoolWriteDescriptor exchange
                              \<and> ratchet (heap c' a) = r'
                              \<and> pandaResult (heap c' a) = pandaResult (heap c a))))))"
  using assms
  by (auto simp: processPANDAUpdate_def Let_def emit_def set_contact_def restart_kx_def
           dest!: save_Inr result_failed_Inr
           split: option.splits sum.splits if_splits prod.splits)

theorem processPANDAUpdate_pending_witness:
  "\<exists>c'. processPANDAUpdate toy_ext (kx_result [7, 8]) alice = Inr c'
       \<and> map_of (contacts alice) (pu_ID (kx_result [7, 8])) = Some 1
       \<and> \<not> IsPending (heap c' 1)
       \<and> spoolWriteDescriptor (heap c' 1)
           = Some \<lparr>swd_ID = [7], swd_Receiver = ''spool'', swd_Provider = ''provider''\<rparr>
       \<and> ratchet (heap c' 1) = 1"
proof -
  obtain c' where r: "processPANDAUpdate toy_ext (kx_result [7, 8]) alice = Inr c'"
    by (simp add: op_defs toy_defs go_defs)
  have a: "map_of (contacts alice) (pu_ID (kx_result [7, 8])) = Some 1"
    by (simp add: toy_defs)
  from processPANDAUpdate_pending [OF a r]
  have "\<not> IsPending (heap c' 1)
        \<and> spoolWriteDescriptor (heap c' 1)
            = Some \<lparr>swd_ID = [7], swd_Receiver = ''spool'', swd_Provider = ''provider''\<rparr>
        \<and> ratchet (heap c' 1) = 1"
    by (simp add: toy_defs)
  with r a show ?thesis by blast
qed

text \<open>
  C7. Every branch of the processing of a PANDA update performs a persist before
  completing: failure, progress including the state echo, and success including its
  error exits.

  As stated this fails: the state echo emits its event and returns at line 434,
  before the \<open>save\<close> of line 475. Carol's stored exchange is \<open>[1, 2, 3]\<close>; a
  Progress update with the same bytes writes no state file.
\<close>

theorem processPANDAUpdate_echo_not_saved:
  "(case processPANDAUpdate toy_ext (kx_progress [1, 2, 3]) alice of
      Inl p \<Rightarrow> False
    | Inr c \<Rightarrow>
        saves c = saves alice
        \<and> eventCh c = [KeyExchangeCompletedEvent ''carol''
             (Some (Error ''strange, our PANDA key exchange echoed our exchange bytes''))])"
  by (simp add: op_defs toy_defs go_defs)

text \<open>
  C7, as the code has it: an update that returns has written the state file exactly
  once, except in two cases that change no contact. An update for an unknown contact
  id changes nothing at all, and a state echo only emits its event.
\<close>

theorem processPANDAUpdate_saves:
  assumes "processPANDAUpdate ext update c = Inr c'"
  shows "(case map_of (contacts c) (pu_ID update) of
            None \<Rightarrow> c' = c
          | Some a \<Rightarrow>
              if state_echo update (heap c a)
              then saves c' = saves c \<and> heap c' = heap c
                   \<and> eventCh c' = eventCh c @ [KeyExchangeCompletedEvent (Nickname (heap c a))
                        (Some (Error ''strange, our PANDA key exchange echoed our exchange bytes''))]
              else saves c' = saves c + 1)"
  using assms
  by (auto simp: processPANDAUpdate_def state_echo_def Let_def emit_def set_contact_def restart_kx_def
           dest!: save_Inr result_failed_Inr
           split: option.splits sum.splits if_splits prod.splits)

theorem processPANDAUpdate_saves_witness:
  "\<exists>c'. processPANDAUpdate toy_ext (kx_progress [4, 5]) alice = Inr c'
       \<and> map_of (contacts alice) (pu_ID (kx_progress [4, 5])) = Some 1
       \<and> \<not> state_echo (kx_progress [4, 5]) (heap alice 1)
       \<and> saves c' = saves alice + 1"
proof -
  obtain c' where r: "processPANDAUpdate toy_ext (kx_progress [4, 5]) alice = Inr c'"
    by (simp add: op_defs toy_defs go_defs)
  have a: "map_of (contacts alice) (pu_ID (kx_progress [4, 5])) = Some 1"
    by (simp add: toy_defs)
  have e: "\<not> state_echo (kx_progress [4, 5]) (heap alice 1)"
    by (simp add: state_echo_def toy_defs go_defs)
  from processPANDAUpdate_saves [OF r] a e have "saves c' = saves alice + 1" by simp
  with r a e show ?thesis by blast
qed

section \<open>Reading the spool\<close>

lemma decryptMessage_Inr:
  "decryptMessage ext rnd now ct c = Inr (c1, d) \<Longrightarrow>
     ReadOffset c1 = ReadOffset c \<and> received c1 = received c + (if d then 1 else 0)
     \<and> sendMap c1 = sendMap c"
  by (auto simp: decryptMessage_def received_def conv_insert_def Let_def
           split: sum.splits option.splits prod.splits)

lemma handle_delivery_Inr:
  "handle_delivery ext tp c = Inr c1 \<Longrightarrow>
     ReadOffset c1 = ReadOffset c \<and> received c1 = received c"
  by (auto simp: handle_delivery_def received_def emit_def conv_insert_def set_contact_def
           dest!: save_Inr split: sum.splits option.splits if_splits)

lemma handle_read_Inr:
  "handle_read ext rnd now r c = Inr c1 \<Longrightarrow>
     (ReadOffset c1 = ReadOffset c \<and> received c1 = received c \<and> sr_MessageID r < ReadOffset c)
     \<or> (ReadOffset c1 = ReadOffset c + 1 \<and> received c1 = received c + 1
         \<and> sr_MessageID r = ReadOffset c)"
  by (auto simp: handle_read_def received_def dest!: decryptMessage_Inr
           split: sum.splits if_splits prod.splits)

lemma handleReply_Inr:
  "handleReply ext rnd now ev c = Inr c' \<Longrightarrow>
     (ReadOffset c' = ReadOffset c \<and> received c' = received c)
     \<or> (ReadOffset c' = ReadOffset c + 1 \<and> received c' = received c + 1)"
  by (auto simp: handleReply_def sendMap_Delete_def received_def
           dest!: handle_read_Inr handle_delivery_Inr
           split: sum.splits option.splits if_splits)

lemma handleReplies_Inr:
  "handleReplies ext evs c = Inr c' \<Longrightarrow>
     received c \<le> received c' \<and> received c' \<le> received c + length evs
     \<and> ReadOffset c' = ReadOffset c + of_nat (received c' - received c)"
proof (induction evs arbitrary: c)
  case Nil
  then show ?case by simp
next
  case (Cons e evs)
  obtain rnd now ev where e: "e = (rnd, now, ev)" by (cases e) auto
  from Cons.prems e obtain c1 where 1: "handleReply ext rnd now ev c = Inr c1"
    and 2: "handleReplies ext evs c1 = Inr c'"
    by (auto split: sum.splits)
  from Cons.IH [OF 2] handleReply_Inr [OF 1] show ?case
    by (auto simp: Suc_diff_le)
qed

lemma word_le_add_of_nat:
  fixes x :: "32 word"
  assumes "unat x + k < 2 ^ 32"
  shows "x \<le> x + of_nat k"
proof -
  have "unat (x + of_nat k) = unat x + k"
    using assms by (simp add: unat_word_ariths unat_of_nat)
  then show ?thesis by (simp add: word_le_nat_alt)
qed

text \<open>
  C6. Read-offset advancement: after any sequence of reply events the read offset is
  at least its initial value and has grown by exactly 1 per successful decryption of
  the tip; a reply whose message id is below the read offset is dropped as a
  duplicate, an equal one advances the offset and then trial-decrypts (a failure to
  decrypt is fatal), a greater one is a fatal bug; two replies for the read offset 5
  leave it at 6 with exactly one \<open>MessageReceived\<close>.

  As stated this fails at one point: the offset is a \<open>uint32\<close> and the increment
  wraps. At the last slot, \<open>0xFFFFFFFF\<close>, the reply for the tip leaves the offset at
  0, below its initial value.
\<close>

theorem handleReply_read_offset_wraps:
  "(case handleReply toy_ext (None, [9]) 100
           (reply 7 [0] [0, 255, 255, 255, 255, 0, 0, 0, 1, 65]) alice_last_slot of
      Inl p \<Rightarrow> False
    | Inr c \<Rightarrow> ReadOffset c = 0 \<and> ReadOffset c < ReadOffset alice_last_slot
        \<and> eventCh c = [MessageReceivedEvent ''bob'' [65] 100])"
  by (simp add: op_defs toy_defs go_defs)

text \<open>
  C6, as the code has it. For a reply to a read of the client's own spool (the
  tracked entry carries the client's user name, the response parses and is OK): a
  message id below the read offset leaves the client as it was; an equal one, when
  the reply returns, has advanced the offset by one and emitted one
  \<open>MessageReceived\<close>, and panics when no contact decrypts the message; a greater one
  panics. For a run of replies that returns: the offset is the initial one plus the
  number of \<open>MessageReceived\<close> events emitted, in \<open>uint32\<close>, at most one per reply,
  and it is at least the initial one while the initial offset plus the number of
  replies stays below \<open>2 ^ 32\<close>.
\<close>

theorem handleReply_read_offset:
  "(sendMap c (ArrayKey (mre_MessageID ev)) = Some tp \<and> smd_Nickname tp = user c
      \<and> SpoolResponseFromBytes ext (mre_Payload ev) = Inr r \<and> sr_IsOK r \<longrightarrow>
      (sr_MessageID r < ReadOffset c \<longrightarrow>
         handleReply ext rnd now ev c = Inr (sendMap_Delete (PointerKey (mre_MessageID_ptr ev)) c))
      \<and> (sr_MessageID r = ReadOffset c \<longrightarrow>
           (case handleReply ext rnd now ev c of
              Inl p \<Rightarrow> True
            | Inr c1 \<Rightarrow> ReadOffset c1 = ReadOffset c + 1 \<and> received c1 = received c + 1)
           \<and> (\<forall>h. trial_decrypt ext (sr_Message r) (contacts c) (heap c) = Inr (h, None) \<longrightarrow>
                 handleReply ext rnd now ev c = Inl (Panic ''failure to decrypt tip of spool'')))
      \<and> (ReadOffset c < sr_MessageID r \<longrightarrow>
           handleReply ext rnd now ev c
             = Inl (Panic ''received spool response for MessageID not requested yet'')))
   \<and> (handleReplies ext evs c = Inr c' \<longrightarrow>
        received c \<le> received c' \<and> received c' \<le> received c + length evs
        \<and> ReadOffset c' = ReadOffset c + of_nat (received c' - received c)
        \<and> (unat (ReadOffset c) + length evs < 2 ^ 32 \<longrightarrow> ReadOffset c \<le> ReadOffset c'))"
proof (intro conjI impI allI)
  assume t: "sendMap c (ArrayKey (mre_MessageID ev)) = Some tp \<and> smd_Nickname tp = user c
      \<and> SpoolResponseFromBytes ext (mre_Payload ev) = Inr r \<and> sr_IsOK r"
  then have hr: "handleReply ext rnd now ev c =
      (case handle_read ext rnd now r c of
         Inl p \<Rightarrow> Inl p
       | Inr c1 \<Rightarrow> Inr (sendMap_Delete (PointerKey (mre_MessageID_ptr ev)) c1))"
    by (simp add: handleReply_def)
  {
    assume "sr_MessageID r < ReadOffset c"
    then show "handleReply ext rnd now ev c
                 = Inr (sendMap_Delete (PointerKey (mre_MessageID_ptr ev)) c)"
      by (simp add: hr handle_read_def)
  }
  {
    assume eq: "sr_MessageID r = ReadOffset c"
    show "case handleReply ext rnd now ev c of
            Inl p \<Rightarrow> True
          | Inr c1 \<Rightarrow> ReadOffset c1 = ReadOffset c + 1 \<and> received c1 = received c + 1"
    proof (cases "handleReply ext rnd now ev c")
      case (Inl p)
      then show ?thesis by simp
    next
      case (Inr c1)
      from handleReply_Inr [OF Inr] hr Inr eq show ?thesis
        by (auto simp: sendMap_Delete_def received_def dest!: handle_read_Inr split: sum.splits)
    qed
    fix h
    assume "trial_decrypt ext (sr_Message r) (contacts c) (heap c) = Inr (h, None)"
    then show "handleReply ext rnd now ev c = Inl (Panic ''failure to decrypt tip of spool'')"
      using eq by (simp add: hr handle_read_def decryptMessage_def)
  }
  {
    assume "ReadOffset c < sr_MessageID r"
    then show "handleReply ext rnd now ev c
                 = Inl (Panic ''received spool response for MessageID not requested yet'')"
      by (auto simp: hr handle_read_def)
  }
next
  assume r: "handleReplies ext evs c = Inr c'"
  note h = handleReplies_Inr [OF r]
  from h show "received c \<le> received c'" by simp
  from h show "received c' \<le> received c + length evs" by simp
  from h show "ReadOffset c' = ReadOffset c + of_nat (received c' - received c)" by simp
  assume "unat (ReadOffset c) + length evs < 2 ^ 32"
  with h have "unat (ReadOffset c) + (received c' - received c) < 2 ^ 32" by arith
  from word_le_add_of_nat [OF this] h show "ReadOffset c \<le> ReadOffset c'" by simp
qed

theorem handleReply_read_offset_witness:
  "(\<exists>c'. handleReplies toy_ext
            [((None, [9]), 100, reply 7 [0] [0, 0, 0, 0, 5, 0, 0, 0, 1, 65]),
             ((None, [10]), 101, reply 8 [1] [0, 0, 0, 0, 5, 0, 0, 0, 1, 65])] alice_reading = Inr c'
         \<and> ReadOffset c' = 6
         \<and> eventCh c' = [MessageReceivedEvent ''bob'' [65] 100]
         \<and> received c' = received alice_reading + 1
         \<and> ReadOffset alice_reading \<le> ReadOffset c')
   \<and> handleReply toy_ext (None, [9]) 100 (reply 7 [0] [0, 0, 0, 0, 4]) alice_reading
       = Inr (sendMap_Delete (PointerKey 7) alice_reading)
   \<and> handleReply toy_ext (None, [9]) 100 (reply 7 [0] [0, 0, 0, 0, 9]) alice_reading
       = Inl (Panic ''received spool response for MessageID not requested yet'')
   \<and> handleReply toy_ext (None, [9]) 100 (reply 7 [0] [0, 0, 0, 0, 5]) alice_reading
       = Inl (Panic ''failure to decrypt tip of spool'')
   \<and> (\<exists>c1. handleReply toy_ext (None, [9]) 100
                  (reply 7 [0] [0, 0, 0, 0, 5, 0, 0, 0, 1, 65]) alice_reading = Inr c1
          \<and> ReadOffset c1 = ReadOffset alice_reading + 1
          \<and> received c1 = received alice_reading + 1)"
proof -
  let ?evs = "[((None, [9]), 100, reply 7 [0] [0, 0, 0, 0, 5, 0, 0, 0, 1, 65]),
               ((None, [10]), 101, reply 8 [1] [0, 0, 0, 0, 5, 0, 0, 0, 1, 65])]"
  have "\<exists>c'. handleReplies toy_ext ?evs alice_reading = Inr c' \<and> ReadOffset c' = 6
          \<and> eventCh c' = [MessageReceivedEvent ''bob'' [65] 100]"
    by (simp add: op_defs toy_defs go_defs)
  then obtain c' where r: "handleReplies toy_ext ?evs alice_reading = Inr c'"
    and o: "ReadOffset c' = 6" and e: "eventCh c' = [MessageReceivedEvent ''bob'' [65] 100]"
    by blast
  have n: "unat (ReadOffset alice_reading) + length ?evs < 2 ^ 32"
    by (simp add: toy_defs)
  from handleReply_read_offset [where ext = toy_ext and evs = ?evs and c = alice_reading and c' = c']
    r n
  have le: "ReadOffset alice_reading \<le> ReadOffset c'" by blast
  have rc: "received c' = received alice_reading + 1"
    using e by (simp add: received_def toy_defs)
  have t: "sendMap alice_reading (ArrayKey [0]) = Some read_of_5"
    "smd_Nickname read_of_5 = user alice_reading"
    by (simp_all add: toy_defs)
  have p4: "SpoolResponseFromBytes toy_ext [0, 0, 0, 0, 4]
              = Inr \<lparr>sr_MessageID = 4, sr_IsOK = True, sr_Message = []\<rparr>"
    and p9: "SpoolResponseFromBytes toy_ext [0, 0, 0, 0, 9]
              = Inr \<lparr>sr_MessageID = 9, sr_IsOK = True, sr_Message = []\<rparr>"
    by (simp_all add: toy_defs go_defs)
  have ro: "ReadOffset alice_reading = 5" by (simp add: toy_defs)
  from handleReply_read_offset
         [where ext = toy_ext and c = alice_reading and ev = "reply 7 [0] [0, 0, 0, 0, 4]"
            and tp = read_of_5 and r = "\<lparr>sr_MessageID = 4, sr_IsOK = True, sr_Message = []\<rparr>"
            and rnd = "(None, [9])" and now = 100]
       t p4 ro
  have d: "handleReply toy_ext (None, [9]) 100 (reply 7 [0] [0, 0, 0, 0, 4]) alice_reading
             = Inr (sendMap_Delete (PointerKey 7) alice_reading)"
    by (simp add: reply_def)
  from handleReply_read_offset
         [where ext = toy_ext and c = alice_reading and ev = "reply 7 [0] [0, 0, 0, 0, 9]"
            and tp = read_of_5 and r = "\<lparr>sr_MessageID = 9, sr_IsOK = True, sr_Message = []\<rparr>"
            and rnd = "(None, [9])" and now = 100]
       t p9 ro
  have g: "handleReply toy_ext (None, [9]) 100 (reply 7 [0] [0, 0, 0, 0, 9]) alice_reading
             = Inl (Panic ''received spool response for MessageID not requested yet'')"
    by (simp add: reply_def)
  have p5: "SpoolResponseFromBytes toy_ext [0, 0, 0, 0, 5]
              = Inr \<lparr>sr_MessageID = 5, sr_IsOK = True, sr_Message = []\<rparr>"
    and p5m: "SpoolResponseFromBytes toy_ext [0, 0, 0, 0, 5, 0, 0, 0, 1, 65]
              = Inr \<lparr>sr_MessageID = 5, sr_IsOK = True, sr_Message = [0, 0, 0, 1, 65]\<rparr>"
    by (simp_all add: toy_defs go_defs)
  have td: "trial_decrypt toy_ext [] (contacts alice_reading) (heap alice_reading)
              = Inr ((heap alice_reading)(0 := (heap alice_reading 0)\<lparr>ratchet := 1\<rparr>), None)"
    by (simp add: toy_defs)
  from handleReply_read_offset
         [where ext = toy_ext and c = alice_reading and ev = "reply 7 [0] [0, 0, 0, 0, 5]"
            and tp = read_of_5 and r = "\<lparr>sr_MessageID = 5, sr_IsOK = True, sr_Message = []\<rparr>"
            and rnd = "(None, [9])" and now = 100]
       t p5 ro td
  have f: "handleReply toy_ext (None, [9]) 100 (reply 7 [0] [0, 0, 0, 0, 5]) alice_reading
             = Inl (Panic ''failure to decrypt tip of spool'')"
    by (simp add: reply_def)
  have "\<exists>c1. handleReply toy_ext (None, [9]) 100
                (reply 7 [0] [0, 0, 0, 0, 5, 0, 0, 0, 1, 65]) alice_reading = Inr c1"
    by (simp add: op_defs toy_defs go_defs)
  then obtain c1 where r1: "handleReply toy_ext (None, [9]) 100
                (reply 7 [0] [0, 0, 0, 0, 5, 0, 0, 0, 1, 65]) alice_reading = Inr c1"
    by blast
  from handleReply_read_offset
         [where ext = toy_ext and c = alice_reading
            and ev = "reply 7 [0] [0, 0, 0, 0, 5, 0, 0, 0, 1, 65]"
            and tp = read_of_5
            and r = "\<lparr>sr_MessageID = 5, sr_IsOK = True, sr_Message = [0, 0, 0, 1, 65]\<rparr>"
            and rnd = "(None, [9])" and now = 100]
       t p5m ro r1
  have q: "ReadOffset c1 = ReadOffset alice_reading + 1 \<and> received c1 = received alice_reading + 1"
    by (simp add: reply_def)
  from r o e rc le d g f r1 q show ?thesis by blast
qed

section \<open>The window of unacknowledged messages\<close>

lemma retransmit_loop_Inr:
  "retransmit_loop ext k ms c = Inr (e, c') \<Longrightarrow>
     heap c' = heap c \<and> saves c' = saves c \<and> contactNicknames c' = contactNicknames c
     \<and> conversations c' = conversations c"
proof (induction ms arbitrary: c)
  case Nil
  then show ?case by simp
next
  case (Cons m ms)
  then show ?case
    by (fastforce split: option.splits sum.splits prod.splits simp: Let_def)
qed

lemma doRetransmit_Inr:
  "doRetransmit ext a c = Inr (e, c') \<Longrightarrow>
     heap c' = heap c \<and> saves c' = saves c \<and> contactNicknames c' = contactNicknames c
     \<and> conversations c' = conversations c"
  by (auto simp: doRetransmit_def Let_def dest: retransmit_loop_Inr split: option.splits if_splits)

lemma retransmit_if_Inr:
  "(if P then doRetransmit ext a c else Inr (None, c)) = Inr (e, c') \<Longrightarrow>
     heap c' = heap c \<and> saves c' = saves c \<and> contactNicknames c' = contactNicknames c
     \<and> conversations c' = conversations c"
  by (auto dest: doRetransmit_Inr split: if_splits)

lemma doSendMessage_Inr:
  assumes "doSendMessage ext now mid nick msg c = Inr c'"
  shows "contactNicknames c' = contactNicknames c
     \<and> saves c \<le> saves c' \<and> saves c' \<le> saves c + 1
     \<and> (case contactNicknames c nick of
           None \<Rightarrow> heap c' = heap c
         | Some a \<Rightarrow>
             (\<forall>b. b \<noteq> a \<longrightarrow> heap c' b = heap c b)
             \<and> UnACKed (heap c' a) = UnACKed (heap c a) + (saves c' - saves c)
             \<and> IsPending (heap c' a) = IsPending (heap c a)
             \<and> Nickname (heap c' a) = Nickname (heap c a)
             \<and> spoolWriteDescriptor (heap c' a) = spoolWriteDescriptor (heap c a))"
proof (cases "contactNicknames c nick")
  case None
  with assms show ?thesis by (auto simp add: doSendMessage_def conv_insert_def)
next
  case (Some a)
  show ?thesis
  proof (cases "IsPending (heap c a)")
    case True
    with assms Some show ?thesis by (auto simp add: doSendMessage_def conv_insert_def)
  next
    case False
    from assms Some False show ?thesis
      by (auto simp: doSendMessage_def Let_def conv_insert_def
               dest!: save_Inr retransmit_if_Inr
               split: sum.splits prod.splits option.splits)
  qed
qed


lemma trial_decrypt_UnACKed:
  "trial_decrypt ext ct cs h = Inr (h', x) \<Longrightarrow>
     UnACKed (h' b) = UnACKed (h b) \<and> Nickname (h' b) = Nickname (h b)"
proof (induction cs arbitrary: h)
  case Nil
  then show ?case by simp
next
  case (Cons ia cs)
  obtain i a where ia: "ia = (i, a)" by (cases ia) auto
  show ?case
  proof (cases "IsPending (h a)")
    case True
    with Cons ia show ?thesis by simp
  next
    case False
    obtain res r' where d: "Decrypt ext (ratchet (h a)) ct = (res, r')"
      by (cases "Decrypt ext (ratchet (h a)) ct") auto
    show ?thesis
    proof (cases res)
      case (Inl err)
      with Cons.prems ia False d
      have "trial_decrypt ext ct cs (h(a := (h a)\<lparr>ratchet := r'\<rparr>)) = Inr (h', x)" by simp
      from Cons.IH [OF this] show ?thesis by (simp split: if_splits)
    next
      case (Inr plaintext)
      with Cons.prems ia False d show ?thesis
        by (auto split: sum.splits)
    qed
  qed
qed

lemma doSendMessage_below_window:
  assumes nick: "contactNicknames c nick = Some a"
    and est: "\<not> IsPending (heap c a)"
    and swd: "spoolWriteDescriptor (heap c a) = Some d"
    and drpl: "4 \<le> DoubleRatchetPayloadLength ext"
    and app: "\<forall>i ct. \<exists>cmd. AppendToSpool ext i ct = Inr cmd"
    and snd: "\<forall>n r p cmd. \<exists>t. SendUnreliableMessage ext n r p cmd = Inr t"
    and wr: "\<forall>n. writeState ext n"
    and below: "int (UnACKed (heap c a)) \<noteq> MaxMissingMessages ext - 1"
  shows "\<exists>c'. doSendMessage ext now mid nick msg c = Inr c'
           \<and> contactNicknames c' = contactNicknames c
           \<and> \<not> IsPending (heap c' a)
           \<and> spoolWriteDescriptor (heap c' a) = Some d
           \<and> UnACKed (heap c' a) = UnACKed (heap c a) + 1
           \<and> length (session_log c') = length (session_log c) + 1"
proof -
  let ?n = "DoubleRatchetPayloadLength ext"
  obtain payload where f: "frame_payload ?n msg = Inr payload"
    using frame_payload_eq [OF drpl] by blast
  obtain ct r' where e: "Encrypt ext (ratchet (heap c a)) payload = (ct, r')"
    by (cases "Encrypt ext (ratchet (heap c a)) payload") auto
  obtain cmd where a: "AppendToSpool ext (swd_ID d) ct = Inr cmd"
    using app by blast
  obtain t where s: "SendUnreliableMessage ext (length (session_log c))
                       (swd_Receiver d) (swd_Provider d) cmd = Inr t"
    using snd by blast
  show ?thesis
    using nick est swd below f e a s wr
    by (simp add: doSendMessage_def conv_insert_def Let_def save_def)
qed

lemma sends_below_window:
  assumes app: "\<forall>i ct. \<exists>cmd. AppendToSpool ext i ct = Inr cmd"
    and snd: "\<forall>n r p cmd. \<exists>t. SendUnreliableMessage ext n r p cmd = Inr t"
    and wr: "\<forall>n. writeState ext n"
    and drpl: "4 \<le> DoubleRatchetPayloadLength ext"
  shows "contactNicknames c nick = Some a \<Longrightarrow> \<not> IsPending (heap c a)
     \<Longrightarrow> spoolWriteDescriptor (heap c a) = Some d
     \<Longrightarrow> int (UnACKed (heap c a)) + int (length sends) \<le> MaxMissingMessages ext - 1
     \<Longrightarrow> \<exists>c'. run ext (map (\<lambda>(now, mid, msg). SendOp now mid nick msg) sends) c = Inr c'
           \<and> contactNicknames c' = contactNicknames c
           \<and> \<not> IsPending (heap c' a)
           \<and> spoolWriteDescriptor (heap c' a) = Some d
           \<and> UnACKed (heap c' a) = UnACKed (heap c a) + length sends
           \<and> length (session_log c') = length (session_log c) + length sends"
proof (induction sends arbitrary: c)
  case Nil
  then show ?case by simp
next
  case (Cons x sends)
  obtain now mid msg where x: "x = (now, mid, msg)" by (cases x) auto
  have below: "int (UnACKed (heap c a)) \<noteq> MaxMissingMessages ext - 1"
    using Cons.prems(4) by simp
  from doSendMessage_below_window [OF Cons.prems(1,2,3) drpl app snd wr below, of now mid msg]
  obtain c1 where 1: "doSendMessage ext now mid nick msg c = Inr c1"
    and n: "contactNicknames c1 = contactNicknames c"
    and p: "\<not> IsPending (heap c1 a)"
    and w: "spoolWriteDescriptor (heap c1 a) = Some d"
    and u: "UnACKed (heap c1 a) = UnACKed (heap c a) + 1"
    and l: "length (session_log c1) = length (session_log c) + 1"
    by blast
  have "int (UnACKed (heap c1 a)) + int (length sends) \<le> MaxMissingMessages ext - 1"
    using Cons.prems(4) u by simp
  from Cons.IH [OF _ p w this] n Cons.prems(1)
  obtain c' where "run ext (map (\<lambda>(now, mid, msg). SendOp now mid nick msg) sends) c1 = Inr c'"
    and "contactNicknames c' = contactNicknames c1"
    and "\<not> IsPending (heap c' a)"
    and "spoolWriteDescriptor (heap c' a) = Some d"
    and "UnACKed (heap c' a) = UnACKed (heap c1 a) + length sends"
    and "length (session_log c') = length (session_log c1) + length sends"
    by auto
  with 1 u l x n show ?case by simp
qed


lemma set_update_subset: "set (AList.update k v al) \<subseteq> insert (k, v) (set al)"
  by (induction al) auto

lemma nothing_sent_conv_insert:
  assumes "nothing_sent c" and "\<not> Sent m"
  shows "nothing_sent (conv_insert n mid m c)"
  unfolding nothing_sent_def
proof (intro allI impI)
  fix n' convo mid' msg
  assume c: "conversations (conv_insert n mid m c) n' = Some convo" and e: "(mid', msg) \<in> set convo"
  show "\<not> Sent msg"
  proof (cases "n' = n")
    case False
    with c have "conversations c n' = Some convo" by (simp add: conv_insert_def)
    with assms(1) e show ?thesis unfolding nothing_sent_def by blast
  next
    case True
    let ?old = "case conversations c n of None \<Rightarrow> [] | Some cm \<Rightarrow> cm"
    from c True have "convo = AList.update mid m ?old" by (simp add: conv_insert_def)
    with e set_update_subset [of mid m ?old]
    have "(mid', msg) = (mid, m) \<or> (mid', msg) \<in> set ?old" by auto
    then show ?thesis
    proof
      assume "(mid', msg) = (mid, m)"
      with assms(2) show ?thesis by simp
    next
      assume o: "(mid', msg) \<in> set ?old"
      then obtain cm where "conversations c n = Some cm" "(mid', msg) \<in> set cm"
        by (cases "conversations c n") auto
      with assms(1) show ?thesis unfolding nothing_sent_def by blast
    qed
  qed
qed

lemma nothing_sent_cong:
  "conversations c' = conversations c \<Longrightarrow> nothing_sent c \<Longrightarrow> nothing_sent c'"
  by (simp add: nothing_sent_def)

lemma undelivered_nothing_sent:
  assumes "nothing_sent c" and "conversations c n = Some convo"
  shows "undelivered convo = []"
proof -
  from assms have "\<forall>x \<in> set convo. \<not> Sent (snd x)"
    unfolding nothing_sent_def by (metis prod.collapse)
  then show ?thesis by (auto simp: undelivered_def filter_empty_conv)
qed

lemma doRetransmit_nothing_sent:
  assumes "nothing_sent c" and "conversations c (Nickname (heap c a)) = Some convo"
  shows "doRetransmit ext a c = Inl RuntimeOutOfRange"
  using undelivered_nothing_sent [OF assms] assms(2)
  by (simp add: doRetransmit_def rTx_cap_def someLimit_def)

lemma doSendMessage_window_retransmits:
  assumes "contactNicknames c nick = Some a" and "\<not> IsPending (heap c a)"
    and "int (UnACKed (heap c a)) = MaxMissingMessages ext - 1"
    and "doRetransmit ext a (conv_insert nick mid
            \<lparr>Plaintext = msg, Ciphertext = [], Timestamp = now,
             Outbound = True, Sent = False, Delivered = False\<rparr> c) = Inl p"
  shows "doSendMessage ext now mid nick msg c = Inl p"
  using assms by (simp add: doSendMessage_def Let_def conv_insert_def)

lemma doSendMessage_at_window:
  assumes nick: "contactNicknames c nick = Some a" and est: "\<not> IsPending (heap c a)"
    and win: "int (UnACKed (heap c a)) = MaxMissingMessages ext - 1"
    and agree: "nicknames_agree c" and ns: "nothing_sent c"
  shows "doSendMessage ext now mid nick msg c = Inl RuntimeOutOfRange"
proof -
  let ?m = "\<lparr>Plaintext = msg, Ciphertext = [], Timestamp = now,
             Outbound = True, Sent = False, Delivered = False\<rparr>"
  let ?c1 = "conv_insert nick mid ?m c"
  have n: "Nickname (heap ?c1 a) = nick"
    using agree nick by (simp add: nicknames_agree_def conv_insert_def)
  have "nothing_sent ?c1" using ns by (rule nothing_sent_conv_insert) simp
  moreover have "\<exists>convo. conversations ?c1 (Nickname (heap ?c1 a)) = Some convo"
    unfolding n by (simp add: conv_insert_def)
  ultimately have "doRetransmit ext a ?c1 = Inl RuntimeOutOfRange"
    using doRetransmit_nothing_sent by blast
  with nick est win show ?thesis by (rule doSendMessage_window_retransmits)
qed


lemma conv_insert_fields:
  "heap (conv_insert n mid m c) = heap c"
  "saves (conv_insert n mid m c) = saves c"
  "contactNicknames (conv_insert n mid m c) = contactNicknames c"
  "session_log (conv_insert n mid m c) = session_log c"
  by (simp_all add: conv_insert_def)

lemma conv_insert_cong:
  "conversations c2 = conversations c1 \<Longrightarrow>
     conversations (conv_insert n mid m c2) = conversations (conv_insert n mid m c1)"
  by (simp add: conv_insert_def)

lemma doSendMessage_nothing_sent:
  assumes r: "doSendMessage ext now mid nick msg c = Inr c'" and ns: "nothing_sent c"
  shows "nothing_sent c'"
proof -
  let ?out = "\<lparr>Plaintext = msg, Ciphertext = [], Timestamp = now,
               Outbound = True, Sent = False, Delivered = False\<rparr>"
  let ?c1 = "conv_insert nick mid ?out c"
  have n1: "nothing_sent ?c1" using ns by (rule nothing_sent_conv_insert) simp
  have n2: "nothing_sent (conv_insert nick mid (?out\<lparr>Ciphertext := ct\<rparr>) ?c1)" for ct
    using n1 by (rule nothing_sent_conv_insert) simp
  show ?thesis
  proof (cases "contactNicknames c nick")
    case None
    with r have "conversations c' = conversations ?c1"
      by (auto simp: doSendMessage_def Let_def conv_insert_fields)
    then show ?thesis using n1 by (rule nothing_sent_cong)
  next
    case (Some a)
    show ?thesis
    proof (cases "IsPending (heap c a)")
      case True
      with r Some have "conversations c' = conversations ?c1"
        by (auto simp: doSendMessage_def Let_def conv_insert_fields)
      then show ?thesis using n1 by (rule nothing_sent_cong)
    next
      case False
      let ?ct = "fst (Encrypt ext (ratchet (heap c a))
                        (projr (frame_payload (DoubleRatchetPayloadLength ext) msg)))"
      from r Some False
      have "conversations c' = conversations (conv_insert nick mid (?out\<lparr>Ciphertext := ?ct\<rparr>) ?c1)"
        by (auto simp: doSendMessage_def Let_def conv_insert_fields
                 dest!: save_Inr retransmit_if_Inr intro!: conv_insert_cong
                 split: sum.splits prod.splits option.splits)
      then show ?thesis using n2 [of ?ct] by (rule nothing_sent_cong)
    qed
  qed
qed

lemma handleReply_keeps:
  assumes "handleReply ext rnd now ev c = Inr c'"
  shows "contactNicknames c' = contactNicknames c
     \<and> UnACKed (heap c' b) = UnACKed (heap c b)
     \<and> Nickname (heap c' b) = Nickname (heap c b)
     \<and> (nothing_sent c \<longrightarrow> nothing_sent c')"
proof -
  have dm: "contactNicknames c1 = contactNicknames c0
            \<and> UnACKed (heap c1 b) = UnACKed (heap c0 b)
            \<and> Nickname (heap c1 b) = Nickname (heap c0 b)
            \<and> (nothing_sent c0 \<longrightarrow> nothing_sent c1)"
    if d: "decryptMessage ext rnd now ct c0 = Inr (c1, dec)" for ct c0 c1 dec
  proof -
    from d obtain h x where t: "trial_decrypt ext ct (contacts c0) (heap c0) = Inr (h, x)"
      by (auto simp: decryptMessage_def split: sum.splits)
    note k = trial_decrypt_UnACKed [OF t, of b]
    show ?thesis
    proof (cases x)
      case None
      with d t have "c1 = c0\<lparr>heap := h\<rparr>" by (simp add: decryptMessage_def)
      with k show ?thesis by (simp add: nothing_sent_def)
    next
      case (Some np)
      obtain nickname pt where np: "np = (nickname, pt)" by (cases np) auto
      let ?m = "\<lparr>Plaintext = pt, Ciphertext = [], Timestamp = now,
                 Outbound = False, Sent = False, Delivered = False\<rparr>"
      let ?c2 = "case fst rnd of None \<Rightarrow> c0\<lparr>heap := h\<rparr>
                 | Some err \<Rightarrow> c0\<lparr>heap := h, fatalErrCh := fatalErrCh c0 @ [err]\<rparr>"
      have c2: "heap ?c2 = h" "contactNicknames ?c2 = contactNicknames c0"
        "conversations ?c2 = conversations c0"
        by (simp_all split: option.splits)
      from d t Some np
      have c1: "c1 = (conv_insert nickname (snd rnd) ?m ?c2)
                       \<lparr>eventCh := eventCh (conv_insert nickname (snd rnd) ?m ?c2)
                            @ [MessageReceivedEvent nickname pt now]\<rparr>"
        by (simp add: decryptMessage_def Let_def split: option.splits)
      have "nothing_sent (conv_insert nickname (snd rnd) ?m ?c2)" if "nothing_sent c0"
      proof -
        from c2(3) that have "nothing_sent ?c2" by (rule nothing_sent_cong)
        then show ?thesis by (rule nothing_sent_conv_insert) simp
      qed
      then have "nothing_sent c0 \<longrightarrow> nothing_sent c1"
        unfolding c1 by (simp add: nothing_sent_def)
      moreover have "heap c1 = h" "contactNicknames c1 = contactNicknames c0"
        unfolding c1 using c2 by (simp_all add: conv_insert_def)
      ultimately show ?thesis using k by simp
    qed
  qed
  have hd: "c1 = emit (MessageDeliveredEvent (smd_Nickname tp) (smd_MessageID tp)) c"
    if "handle_delivery ext tp c = Inr c1" for tp c1
    using that
    by (auto simp: handle_delivery_def save_def split: sum.splits option.splits if_splits)
  have hr: "contactNicknames c1 = contactNicknames c
            \<and> UnACKed (heap c1 b) = UnACKed (heap c b)
            \<and> Nickname (heap c1 b) = Nickname (heap c b)
            \<and> (nothing_sent c \<longrightarrow> nothing_sent c1)"
    if "handle_read ext rnd now r c = Inr c1" for r c1
  proof (cases "sr_MessageID r < ReadOffset c")
    case True
    with that show ?thesis by (simp add: handle_read_def)
  next
    case False
    with that obtain dec where
      "decryptMessage ext rnd now (sr_Message r) (c\<lparr>ReadOffset := ReadOffset c + 1\<rparr>) = Inr (c1, dec)"
      by (auto simp: handle_read_def split: sum.splits if_splits prod.splits)
    from dm [OF this] show ?thesis by (simp add: nothing_sent_def)
  qed
  from assms show ?thesis
    by (auto simp: handleReply_def sendMap_Delete_def emit_def nothing_sent_def
             dest!: hd hr
             split: sum.splits option.splits if_splits)
qed


lemma doSendMessage_pending:
  assumes "contactNicknames c nick = Some a" and "IsPending (heap c a)"
    and "doSendMessage ext now mid nick msg c = Inr c'"
  shows "heap c' = heap c"
  using assms by (auto simp: doSendMessage_def Let_def conv_insert_fields)

lemma doSendMessage_keeps:
  assumes r: "doSendMessage ext now mid nick msg c = Inr c'"
    and agree: "nicknames_agree c" and ns: "nothing_sent c" and ww: "within_window ext c"
  shows "nicknames_agree c' \<and> nothing_sent c' \<and> within_window ext c'"
proof -
  note k = doSendMessage_Inr [OF r]
  from k have idx: "contactNicknames c' = contactNicknames c" by simp
  have n: "Nickname (heap c' b) = Nickname (heap c b)" for b
  proof (cases "contactNicknames c nick")
    case None
    with k show ?thesis by simp
  next
    case (Some a)
    with k show ?thesis by (cases "b = a") simp_all
  qed
  have u: "int (UnACKed (heap c' b)) \<le> MaxMissingMessages ext - 1"
    if b: "contactNicknames c n = Some b" for n b
  proof -
    from ww b have le: "int (UnACKed (heap c b)) \<le> MaxMissingMessages ext - 1"
      unfolding within_window_def by blast
    show ?thesis
    proof (cases "contactNicknames c nick")
      case None
      with k le show ?thesis by simp
    next
      case (Some a)
      with k have o: "\<forall>b. b \<noteq> a \<longrightarrow> heap c' b = heap c b"
        and ua: "UnACKed (heap c' a) = UnACKed (heap c a) + (saves c' - saves c)"
        and s: "saves c' \<le> saves c + 1"
        by simp_all
      show ?thesis
      proof (cases "b = a")
        case False
        with o le show ?thesis by simp
      next
        case True
        show ?thesis
        proof (cases "IsPending (heap c a)")
          case True
          from doSendMessage_pending [OF Some True r] le show ?thesis by simp
        next
          case False
          have "int (UnACKed (heap c a)) \<noteq> MaxMissingMessages ext - 1"
          proof
            assume "int (UnACKed (heap c a)) = MaxMissingMessages ext - 1"
            from doSendMessage_at_window [OF Some False this agree ns, of now mid msg] r
            show False by simp
          qed
          with le ua s show ?thesis unfolding \<open>b = a\<close> by arith
        qed
      qed
    qed
  qed
  have "nicknames_agree c'"
    using agree unfolding nicknames_agree_def idx n .
  moreover have "nothing_sent c'" using r ns by (rule doSendMessage_nothing_sent)
  moreover have "within_window ext c'"
    unfolding within_window_def idx using u by blast
  ultimately show ?thesis by blast
qed

lemma run_keeps:
  "run ext ops c = Inr c' \<Longrightarrow> nicknames_agree c \<Longrightarrow> nothing_sent c \<Longrightarrow> within_window ext c
     \<Longrightarrow> nicknames_agree c' \<and> nothing_sent c' \<and> within_window ext c'"
proof (induction ops arbitrary: c)
  case Nil
  then show ?case by simp
next
  case (Cons x ops)
  show ?case
  proof (cases x)
    case (SendOp now mid nick msg)
    with Cons.prems(1) obtain c1 where 1: "doSendMessage ext now mid nick msg c = Inr c1"
      and 2: "run ext ops c1 = Inr c'"
      by (auto split: sum.splits)
    from doSendMessage_keeps [OF 1 Cons.prems(2,3,4)] Cons.IH [OF 2] show ?thesis by blast
  next
    case (ReplyOp rnd now ev)
    with Cons.prems(1) obtain c1 where 1: "handleReply ext rnd now ev c = Inr c1"
      and 2: "run ext ops c1 = Inr c'"
      by (auto split: sum.splits)
    note k = handleReply_keeps [OF 1]
    from k have idx: "contactNicknames c1 = contactNicknames c" by blast
    have u: "UnACKed (heap c1 b) = UnACKed (heap c b)" for b using k [of b] by blast
    have n: "Nickname (heap c1 b) = Nickname (heap c b)" for b using k [of b] by blast
    have "nicknames_agree c1"
      using Cons.prems(2) unfolding nicknames_agree_def idx n .
    moreover have "nothing_sent c1" using k Cons.prems(3) by blast
    moreover have "within_window ext c1"
      using Cons.prems(4) unfolding within_window_def idx u .
    ultimately show ?thesis using Cons.IH [OF 2] by blast
  qed
qed


lemma toy_ext_accepts:
  "\<forall>i ct. \<exists>cmd. AppendToSpool toy_ext i ct = Inr cmd"
  "\<forall>n r p cmd. \<exists>t. SendUnreliableMessage toy_ext n r p cmd = Inr t"
  "\<forall>n. writeState toy_ext n"
  "4 \<le> DoubleRatchetPayloadLength toy_ext"
  "MaxMissingMessages toy_ext - 1 = 16"
  by (simp_all add: toy_ext_def)

lemma alice_bob:
  "contactNicknames alice ''bob'' = Some 0"
  "\<not> IsPending (heap alice 0)"
  "spoolWriteDescriptor (heap alice 0)
     = Some \<lparr>swd_ID = [7], swd_Receiver = ''spool'', swd_Provider = ''provider''\<rparr>"
  "UnACKed (heap alice 0) = 0"
  "session_log alice = []"
  by (simp_all add: alice_def bob_def)

lemma alice_keeps:
  "nicknames_agree alice" "nothing_sent alice" "within_window toy_ext alice"
  by (auto simp: nicknames_agree_def nothing_sent_def within_window_def
                 alice_def bob_def carol_def toy_ext_def split: if_splits)

lemma sends_to_bob_map:
  "sends_to_bob i j = map (\<lambda>(now, mid, msg). SendOp now mid ''bob'' msg)
                          (map (\<lambda>k. (int k, [of_nat k], [72, 105])) [i..<j])"
  by (simp add: sends_to_bob_def)

text \<open>
  C3. In-flight window invariant: after any sequence of sends and reply events every
  contact's \<open>UnACKed\<close> is at most \<open>MaxMissingMessages - 1\<close>; with a window of
  16, sixteen sends without replies leave \<open>UnACKed\<close> at 16 and the 16th send
  triggers \<open>doRetransmit\<close>.

  As stated this fails in its last part. Line 523 compares \<open>UnACKed\<close> with the
  window before the send is counted at line 546, so the 16th send of a fresh client
  finds 15. After fifteen sends to bob the count is 15; the 16th send returns with the
  count at 16 and sixteen submissions in all, one for each send. It has not called
  \<open>doRetransmit\<close>: on the state of the 16th send that call panics, since no message
  is marked sent, \<open>rTx\<close> is empty and \<open>rTx[:someLimit]\<close> is out of range.
\<close>

theorem sixteenth_send_does_not_retransmit:
  "\<exists>c. run toy_ext (sends_to_bob 0 15) alice = Inr c
       \<and> int (UnACKed (heap c 0)) = 15
       \<and> MaxMissingMessages toy_ext - 1 = 16
       \<and> doRetransmit toy_ext 0
             (conv_insert ''bob'' [15]
                \<lparr>Plaintext = [72, 105], Ciphertext = [], Timestamp = 15,
                 Outbound = True, Sent = False, Delivered = False\<rparr> c)
           = Inl RuntimeOutOfRange
       \<and> (\<exists>c'. doSendMessage toy_ext 15 [15] ''bob'' [72, 105] c = Inr c'
               \<and> UnACKed (heap c' 0) = 16
               \<and> length (session_log c') = 16)"
proof -
  let ?d = "\<lparr>swd_ID = [7], swd_Receiver = ''spool'', swd_Provider = ''provider''\<rparr>"
  let ?sends = "map (\<lambda>k. (int k, [of_nat k :: byte], [72 :: byte, 105])) [0..<15]"
  let ?m = "\<lparr>Plaintext = [72 :: byte, 105], Ciphertext = [], Timestamp = 15,
             Outbound = True, Sent = False, Delivered = False\<rparr>"
  have "int (UnACKed (heap alice 0)) + int (length ?sends) \<le> MaxMissingMessages toy_ext - 1"
    by (simp add: alice_bob toy_ext_accepts)
  from sends_below_window [OF toy_ext_accepts(1-4) alice_bob(1-3) this]
  obtain c where r: "run toy_ext (sends_to_bob 0 15) alice = Inr c"
    and idx: "contactNicknames c = contactNicknames alice"
    and est: "\<not> IsPending (heap c 0)"
    and swd: "spoolWriteDescriptor (heap c 0) = Some ?d"
    and u: "UnACKed (heap c 0) = 15"
    and l: "length (session_log c) = 15"
    unfolding sends_to_bob_map by (auto simp: alice_bob)
  from idx have nick: "contactNicknames c ''bob'' = Some 0" by (simp add: alice_bob)
  from run_keeps [OF r alice_keeps] have agree: "nicknames_agree c" and ns: "nothing_sent c"
    by simp_all
  have below: "int (UnACKed (heap c 0)) \<noteq> MaxMissingMessages toy_ext - 1"
    using u by (simp add: toy_ext_accepts)
  from doSendMessage_below_window [OF nick est swd toy_ext_accepts(4,1,2,3) below, of 15 "[15]" "[72, 105]"]
  obtain c' where s: "doSendMessage toy_ext 15 [15] ''bob'' [72, 105] c = Inr c'"
    and u': "UnACKed (heap c' 0) = 16" and l': "length (session_log c') = 16"
    using u l by auto
  have "nothing_sent (conv_insert ''bob'' [15] ?m c)"
    using ns by (rule nothing_sent_conv_insert) simp
  moreover have "Nickname (heap (conv_insert ''bob'' [15] ?m c) 0) = ''bob''"
    using agree nick by (simp add: nicknames_agree_def conv_insert_fields)
  moreover have "\<exists>convo. conversations (conv_insert ''bob'' [15] ?m c) ''bob'' = Some convo"
    by (simp add: conv_insert_def)
  ultimately have "doRetransmit toy_ext 0 (conv_insert ''bob'' [15] ?m c) = Inl RuntimeOutOfRange"
    using doRetransmit_nothing_sent by metis
  with r u s u' l' show ?thesis by (simp add: toy_ext_accepts)
qed

text \<open>
  C3, as the code has it. First, a run of sends and reply events that returns keeps
  every contact of the nickname index within the window, when it starts from a client
  whose contacts are within the window, whose nickname index agrees with its contacts
  and in which no message is marked sent; the run keeps these two properties as well.
  Second, as long as the count stays within the window, sends to an established
  contact return when the codec and the session accept every command and the state is
  written, and each of them adds one to \<open>UnACKed\<close> and makes one submission: none
  of them retransmits. Third, the send that finds \<open>UnACKed\<close> equal to the window
  is the one that calls \<open>doRetransmit\<close>: a panic of that call is the panic of the
  send, and with no message marked sent the call does panic, which is why the count of
  a run that returns does not pass the window. The counts here never exceed
  \<open>MaxMissingMessages - 1\<close>, so the width of the Go field plays no part.
\<close>

theorem unacked_count_within_window:
  "(nicknames_agree c \<and> nothing_sent c \<and> within_window ext c \<and> run ext ops c = Inr c'
      \<longrightarrow> nicknames_agree c' \<and> nothing_sent c' \<and> within_window ext c')
   \<and> ((\<forall>i ct. \<exists>cmd. AppendToSpool ext i ct = Inr cmd)
        \<and> (\<forall>n r p cmd. \<exists>t. SendUnreliableMessage ext n r p cmd = Inr t)
        \<and> (\<forall>n. writeState ext n)
        \<and> 4 \<le> DoubleRatchetPayloadLength ext
        \<and> contactNicknames c nick = Some a
        \<and> \<not> IsPending (heap c a)
        \<and> spoolWriteDescriptor (heap c a) = Some d
        \<and> int (UnACKed (heap c a)) + int (length sends) \<le> MaxMissingMessages ext - 1
      \<longrightarrow> (\<exists>c1. run ext (map (\<lambda>(now, mid, msg). SendOp now mid nick msg) sends) c = Inr c1
              \<and> contactNicknames c1 = contactNicknames c
              \<and> \<not> IsPending (heap c1 a)
              \<and> spoolWriteDescriptor (heap c1 a) = Some d
              \<and> UnACKed (heap c1 a) = UnACKed (heap c a) + length sends
              \<and> length (session_log c1) = length (session_log c) + length sends))
   \<and> (contactNicknames c nick = Some a
        \<and> \<not> IsPending (heap c a)
        \<and> int (UnACKed (heap c a)) = MaxMissingMessages ext - 1
      \<longrightarrow> (\<forall>p. doRetransmit ext a
                    (conv_insert nick mid
                       \<lparr>Plaintext = msg, Ciphertext = [], Timestamp = now,
                        Outbound = True, Sent = False, Delivered = False\<rparr> c) = Inl p
                 \<longrightarrow> doSendMessage ext now mid nick msg c = Inl p)
          \<and> (nicknames_agree c \<and> nothing_sent c
                 \<longrightarrow> doSendMessage ext now mid nick msg c = Inl RuntimeOutOfRange))"
proof (intro conjI impI allI)
  assume "nicknames_agree c \<and> nothing_sent c \<and> within_window ext c \<and> run ext ops c = Inr c'"
  then have k: "nicknames_agree c' \<and> nothing_sent c' \<and> within_window ext c'"
    using run_keeps by blast
  from k show "nicknames_agree c'" by blast
  from k show "nothing_sent c'" by blast
  from k show "within_window ext c'" by blast
next
  assume "(\<forall>i ct. \<exists>cmd. AppendToSpool ext i ct = Inr cmd)
        \<and> (\<forall>n r p cmd. \<exists>t. SendUnreliableMessage ext n r p cmd = Inr t)
        \<and> (\<forall>n. writeState ext n)
        \<and> 4 \<le> DoubleRatchetPayloadLength ext
        \<and> contactNicknames c nick = Some a
        \<and> \<not> IsPending (heap c a)
        \<and> spoolWriteDescriptor (heap c a) = Some d
        \<and> int (UnACKed (heap c a)) + int (length sends) \<le> MaxMissingMessages ext - 1"
  then show "\<exists>c1. run ext (map (\<lambda>(now, mid, msg). SendOp now mid nick msg) sends) c = Inr c1
              \<and> contactNicknames c1 = contactNicknames c
              \<and> \<not> IsPending (heap c1 a)
              \<and> spoolWriteDescriptor (heap c1 a) = Some d
              \<and> UnACKed (heap c1 a) = UnACKed (heap c a) + length sends
              \<and> length (session_log c1) = length (session_log c) + length sends"
    using sends_below_window [of ext c nick a d sends] by blast
next
  fix p
  assume "contactNicknames c nick = Some a \<and> \<not> IsPending (heap c a)
        \<and> int (UnACKed (heap c a)) = MaxMissingMessages ext - 1"
    and "doRetransmit ext a
           (conv_insert nick mid
              \<lparr>Plaintext = msg, Ciphertext = [], Timestamp = now,
               Outbound = True, Sent = False, Delivered = False\<rparr> c) = Inl p"
  then show "doSendMessage ext now mid nick msg c = Inl p"
    using doSendMessage_window_retransmits by blast
next
  assume "contactNicknames c nick = Some a \<and> \<not> IsPending (heap c a)
        \<and> int (UnACKed (heap c a)) = MaxMissingMessages ext - 1"
    and "nicknames_agree c \<and> nothing_sent c"
  then show "doSendMessage ext now mid nick msg c = Inl RuntimeOutOfRange"
    using doSendMessage_at_window by blast
qed


theorem unacked_count_within_window_witness:
  "nicknames_agree alice \<and> nothing_sent alice \<and> within_window toy_ext alice
   \<and> MaxMissingMessages toy_ext - 1 = 16
   \<and> (\<exists>c. run toy_ext (sends_to_bob 0 16) alice = Inr c
          \<and> UnACKed (heap c 0) = 16
          \<and> length (session_log c) = 16
          \<and> nicknames_agree c \<and> nothing_sent c \<and> within_window toy_ext c
          \<and> doRetransmit toy_ext 0
                (conv_insert ''bob'' [16]
                   \<lparr>Plaintext = [72, 105], Ciphertext = [], Timestamp = 16,
                    Outbound = True, Sent = False, Delivered = False\<rparr> c)
              = Inl RuntimeOutOfRange
          \<and> doSendMessage toy_ext 16 [16] ''bob'' [72, 105] c = Inl RuntimeOutOfRange)"
proof -
  let ?d = "\<lparr>swd_ID = [7], swd_Receiver = ''spool'', swd_Provider = ''provider''\<rparr>"
  let ?sends = "map (\<lambda>k. (int k, [of_nat k :: byte], [72 :: byte, 105])) [0..<16]"
  let ?m = "\<lparr>Plaintext = [72 :: byte, 105], Ciphertext = [], Timestamp = 16,
             Outbound = True, Sent = False, Delivered = False\<rparr>"
  note below = unacked_count_within_window
    [where ext = toy_ext and c = alice and nick = "''bob''" and a = 0 and d = ?d
       and sends = ?sends, THEN conjunct2, THEN conjunct1]
  have "\<exists>c. run toy_ext (sends_to_bob 0 16) alice = Inr c
          \<and> contactNicknames c = contactNicknames alice
          \<and> \<not> IsPending (heap c 0)
          \<and> UnACKed (heap c 0) = 16
          \<and> length (session_log c) = 16"
    using mp [OF below] unfolding sends_to_bob_map
    by (simp add: toy_ext_accepts alice_bob) blast
  then obtain c where r: "run toy_ext (sends_to_bob 0 16) alice = Inr c"
    and idx: "contactNicknames c = contactNicknames alice"
    and est: "\<not> IsPending (heap c 0)"
    and u: "UnACKed (heap c 0) = 16"
    and l: "length (session_log c) = 16"
    by blast
  note keeps = unacked_count_within_window
    [where ext = toy_ext and c = alice and ops = "sends_to_bob 0 16" and c' = c,
     THEN conjunct1]
  have k: "nicknames_agree c \<and> nothing_sent c \<and> within_window toy_ext c"
    using mp [OF keeps] r alice_keeps by blast
  from idx have nick: "contactNicknames c ''bob'' = Some 0" by (simp add: alice_bob)
  have win: "int (UnACKed (heap c 0)) = MaxMissingMessages toy_ext - 1"
    using u by (simp add: toy_ext_accepts)
  note at = unacked_count_within_window
    [where ext = toy_ext and c = c and nick = "''bob''" and a = 0 and mid = "[16]"
       and msg = "[72, 105]" and now = 16, THEN conjunct2, THEN conjunct2]
  from mp [OF at] nick est win k
  have p: "doSendMessage toy_ext 16 [16] ''bob'' [72, 105] c = Inl RuntimeOutOfRange"
    by blast
  have "nothing_sent (conv_insert ''bob'' [16] ?m c)"
    using k by (intro nothing_sent_conv_insert) simp_all
  moreover have "Nickname (heap (conv_insert ''bob'' [16] ?m c) 0) = ''bob''"
    using k nick by (simp add: nicknames_agree_def conv_insert_fields)
  moreover have "\<exists>convo. conversations (conv_insert ''bob'' [16] ?m c) ''bob'' = Some convo"
    by (simp add: conv_insert_def)
  ultimately have "doRetransmit toy_ext 0 (conv_insert ''bob'' [16] ?m c) = Inl RuntimeOutOfRange"
    using doRetransmit_nothing_sent by metis
  with r u l k p alice_keeps show ?thesis by (simp add: toy_ext_accepts)
qed

section \<open>The order of retransmission\<close>

lemma Messages_Swap_adjacent:
  "Messages_Swap (p @ y # x # rest) (Suc (length p)) (length p) = p @ x # y # rest"
  by (simp add: Messages_Swap_def nth_append list_update_append)

lemma insertion_inner_inserts:
  "sorted_wrt ts_le p \<Longrightarrow>
     \<exists>q. insertion_inner Messages_Less 0 (length p) (p @ x # rest) = q @ rest
         \<and> mset q = add_mset x (mset p) \<and> sorted_wrt ts_le q"
proof (induction p arbitrary: x rest rule: rev_induct)
  case Nil
  then show ?case by simp
next
  case (snoc y p)
  from snoc.prems have sp: "sorted_wrt ts_le p" and py: "\<forall>z \<in> set p. ts_le z y"
    by (auto simp: sorted_wrt_append)
  show ?case
  proof (cases "Timestamp (snd x) < Timestamp (snd y)")
    case True
    from snoc.IH [OF sp, of x "y # rest"]
    obtain q where q: "insertion_inner Messages_Less 0 (length p) (p @ x # y # rest) = q @ y # rest"
      and m: "mset q = add_mset x (mset p)" and s: "sorted_wrt ts_le q"
      by blast
    have "set q = insert x (set p)" using m by (metis set_mset_add_mset_insert set_mset_mset)
    with py True have "\<forall>z \<in> set q. ts_le z y" by auto
    with s have "sorted_wrt ts_le (q @ [y])" by (simp add: sorted_wrt_append)
    moreover have "mset (q @ [y]) = add_mset x (mset (p @ [y]))" using m by simp
    moreover have "insertion_inner Messages_Less 0 (length (p @ [y])) ((p @ [y]) @ x # rest)
                     = (q @ [y]) @ rest"
      using True q by (simp add: Messages_Less_def nth_append Messages_Swap_adjacent)
    ultimately show ?thesis by blast
  next
    case False
    with py have "\<forall>z \<in> set (p @ [y]). ts_le z x" by auto
    with snoc.prems have "sorted_wrt ts_le ((p @ [y]) @ [x])"
      by (simp add: sorted_wrt_append)
    moreover have "insertion_inner Messages_Less 0 (length (p @ [y])) ((p @ [y]) @ x # rest)
                     = ((p @ [y]) @ [x]) @ rest"
      using False by (simp add: Messages_Less_def nth_append)
    ultimately show ?thesis by (intro exI [of _ "(p @ [y]) @ [x]"]) simp
  qed
qed


lemma insertionSort_prefix:
  "k \<le> length d \<Longrightarrow>
     \<exists>q. fold (\<lambda>i d. insertion_inner Messages_Less 0 i d) [Suc 0..<k] d = q @ drop k d
         \<and> mset q = mset (take k d) \<and> sorted_wrt ts_le q"
proof (induction k)
  case 0
  then show ?case by simp
next
  case (Suc k)
  then have kl: "k < length d" by simp
  show ?case
  proof (cases "k = 0")
    case True
    have "d = take (Suc 0) d @ drop (Suc 0) d" by simp
    moreover have "sorted_wrt ts_le (take (Suc 0) d)" by (cases d) simp_all
    ultimately show ?thesis using True by (intro exI [of _ "take (Suc 0) d"]) simp
  next
    case False
    from Suc.IH kl obtain q where
      q: "fold (\<lambda>i d. insertion_inner Messages_Less 0 i d) [Suc 0..<k] d = q @ drop k d"
      and m: "mset q = mset (take k d)" and s: "sorted_wrt ts_le q"
      by auto
    have lq: "length q = k" using m kl by (metis length_take min.absorb2 less_imp_le size_mset)
    have dk: "drop k d = d ! k # drop (Suc k) d" using kl by (simp add: Cons_nth_drop_Suc)
    from insertion_inner_inserts [OF s, of "d ! k" "drop (Suc k) d"]
    obtain q' where q': "insertion_inner Messages_Less 0 (length q) (q @ d ! k # drop (Suc k) d)
                           = q' @ drop (Suc k) d"
      and m': "mset q' = add_mset (d ! k) (mset q)" and s': "sorted_wrt ts_le q'"
      by blast
    have "[Suc 0..<Suc k] = [Suc 0..<k] @ [k]" using False by simp
    then have "fold (\<lambda>i d. insertion_inner Messages_Less 0 i d) [Suc 0..<Suc k] d
                 = insertion_inner Messages_Less 0 k (q @ drop k d)"
      using q by simp
    also have "\<dots> = q' @ drop (Suc k) d" using q' lq dk by simp
    finally have 1: "fold (\<lambda>i d. insertion_inner Messages_Less 0 i d) [Suc 0..<Suc k] d
                 = q' @ drop (Suc k) d" .
    have "mset q' = mset (take (Suc k) d)"
      using m' m kl by (simp add: take_Suc_conv_app_nth)
    with 1 s' show ?thesis by blast
  qed
qed

lemma Messages_Swap_mset:
  "i < length d \<Longrightarrow> j < length d \<Longrightarrow>
     mset (Messages_Swap d i j) = mset d \<and> length (Messages_Swap d i j) = length d"
  by (simp add: Messages_Swap_def mset_swap)

lemma shell_pass_mset:
  "\<forall>i \<in> set is. i < length d \<Longrightarrow>
     mset (fold (\<lambda>i d. if Messages_Less d i (i - 6) then Messages_Swap d i (i - 6) else d) is d)
       = mset d
     \<and> length (fold (\<lambda>i d. if Messages_Less d i (i - 6) then Messages_Swap d i (i - 6) else d) is d)
       = length d"
proof (induction "is" arbitrary: d)
  case Nil
  then show ?case by simp
next
  case (Cons i "is")
  let ?d = "if Messages_Less d i (i - 6) then Messages_Swap d i (i - 6) else d"
  have i: "i < length d" "i - 6 < length d" using Cons.prems by auto
  then have d: "mset ?d = mset d" "length ?d = length d"
    using Messages_Swap_mset [of i d "i - 6"] by auto
  with Cons.prems have "\<forall>i \<in> set is. i < length ?d" by simp
  from Cons.IH [OF this] d show ?case by simp
qed

lemma sort_short_sorts:
  "mset (sort_short Messages_Less d) = mset d \<and> sorted_wrt ts_le (sort_short Messages_Less d)"
proof (cases "1 < length d")
  case False
  then have "length d \<le> 1" by simp
  then have "sorted_wrt ts_le d" by (cases d) auto
  with False show ?thesis by (simp add: sort_short_def Messages_Len_def)
next
  case True
  let ?s = "fold (\<lambda>i d. if Messages_Less d i (i - 6) then Messages_Swap d i (i - 6) else d)
              [6..<length d] d"
  have s: "mset ?s = mset d" "length ?s = length d"
    using shell_pass_mset [of "[6..<length d]" d] by simp_all
  from insertionSort_prefix [of "length ?s" ?s]
  obtain q where "fold (\<lambda>i d. insertion_inner Messages_Less 0 i d) [Suc 0..<length ?s] ?s = q"
    and "mset q = mset ?s" and "sorted_wrt ts_le q"
    by auto
  with True s show ?thesis
    by (simp add: sort_short_def Messages_Len_def insertionSort_def Let_def)
qed


lemma retransmit_loop_prefix:
  assumes swd: "spoolWriteDescriptor k = Some d"
  shows "retransmit_loop ext k (map Some ys @ replicate m None) c = Inr (e, c') \<Longrightarrow>
     \<exists>j \<le> length ys.
        session_log c' = session_log c
          @ map (\<lambda>(mID, msg). (swd_Receiver d, swd_Provider d,
                   projr (AppendToSpool ext (swd_ID d) (Ciphertext msg)))) (take j ys)
        \<and> (e = None \<longrightarrow> j = length ys \<and> m = 0)"
proof (induction ys arbitrary: c)
  case Nil
  then show ?case using swd by (cases m) auto
next
  case (Cons y ys)
  obtain mID msg where y: "y = (mID, msg)" by (cases y) auto
  show ?case
  proof (cases "AppendToSpool ext (swd_ID d) (Ciphertext msg)")
    case (Inl err)
    with Cons.prems swd y have "e = Some err" "c' = c" by auto
    then show ?thesis by (intro exI [of _ 0]) simp
  next
    case (Inr cmd)
    let ?c1 = "c\<lparr>session_log := session_log c @ [(swd_Receiver d, swd_Provider d, cmd)]\<rparr>"
    show ?thesis
    proof (cases "SendUnreliableMessage ext (length (session_log c))
                    (swd_Receiver d) (swd_Provider d) cmd")
      case (Inl err)
      with Cons.prems swd y Inr have "e = Some err" "c' = ?c1" by (auto simp: Let_def)
      then show ?thesis using y Inr by (intro exI [of _ 1]) simp
    next
      case r: (Inr t)
      let ?c2 = "?c1\<lparr>sendMap := (sendMap ?c1)(ArrayKey t \<mapsto>
                    \<lparr>smd_Nickname = Nickname k, smd_MessageID = mID\<rparr>)\<rparr>"
      from Cons.prems swd y Inr r
      have "retransmit_loop ext k (map Some ys @ replicate m None) ?c2 = Inr (e, c')"
        by (simp add: Let_def)
      from Cons.IH [OF this] obtain j where j: "j \<le> length ys"
        and l: "session_log c' = session_log ?c2
          @ map (\<lambda>(mID, msg). (swd_Receiver d, swd_Provider d,
                   projr (AppendToSpool ext (swd_ID d) (Ciphertext msg)))) (take j ys)"
        and n: "e = None \<longrightarrow> j = length ys \<and> m = 0"
        by blast
      show ?thesis using j l n y Inr by (intro exI [of _ "Suc j"]) simp
    qed
  qed
qed

text \<open>
  C9. Retransmission ordering: the candidates are resubmitted in ascending order of
  timestamp with a stable tie-break by conversation id: of two candidates with equal
  timestamps the one with the smaller conversation id goes first.

  As stated this fails: \<open>Less\<close> compares timestamps only, and nothing looks at the
  conversation id. The messages \<open>[9]\<close> and \<open>[1]\<close> have the same timestamp. When
  the \<open>range\<close> over the conversation visits \<open>[9]\<close> first, it is resubmitted
  first (the transport ids are handed out in order of submission); when the
  \<open>range\<close> visits \<open>[1]\<close> first, that one is.
\<close>

theorem doRetransmit_ties_follow_map_order:
  "(case doRetransmit toy_ext 0 alice_ties of
      Inl p \<Rightarrow> False
    | Inr (e, c) \<Rightarrow>
        map (snd \<circ> snd) (session_log c) = [[7, 49], [7, 41], [7, 50], [7, 51]]
        \<and> map (\<lambda>t. map_option smd_MessageID (sendMap c (ArrayKey [t]))) [0, 1, 2, 3]
            = [Some [9], Some [1], Some [10], Some [11]])
   \<and> (case doRetransmit toy_ext 0
             (alice\<lparr>conversations := [''bob'' \<mapsto>
                [([1], outbound [41] 5 True), ([9], outbound [49] 5 True),
                 ([10], outbound [50] 6 True), ([11], outbound [51] 7 True)]]\<rparr>) of
      Inl p \<Rightarrow> False
    | Inr (e, c) \<Rightarrow>
        map (\<lambda>t. map_option smd_MessageID (sendMap c (ArrayKey [t]))) [0, 1, 2, 3]
            = [Some [1], Some [9], Some [10], Some [11]])"
  by code_simp

text \<open>
  C9, as the code has it. Take a contact with a conversation and a spool write
  descriptor, and let \<open>sort.Sort\<close> run on the candidates as it does on a short
  slice. Whenever \<open>doRetransmit\<close> returns, what it has submitted are the commands
  of the first \<open>k\<close> of the sorted candidates, in their order, for some \<open>k\<close> up to
  \<open>someLimit\<close>, and of the first \<open>someLimit\<close> of them when it returns no error.
  The sorted candidates are the candidates, each as often as before, in ascending
  order of timestamp. Nothing orders candidates with equal timestamps.
\<close>

theorem doRetransmit_order:
  assumes conv: "conversations c (Nickname (heap c a)) = Some convMap"
    and swd: "spoolWriteDescriptor (heap c a) = Some d"
    and srt: "sort_Sort ext Messages_Less (undelivered convMap)
                = sort_short Messages_Less (undelivered convMap)"
    and res: "doRetransmit ext a c = Inr (e, c')"
  shows "(\<exists>k \<le> someLimit.
            session_log c' = session_log c
              @ map (\<lambda>(mID, msg). (swd_Receiver d, swd_Provider d,
                       projr (AppendToSpool ext (swd_ID d) (Ciphertext msg))))
                  (take k (sort_short Messages_Less (undelivered convMap)))
            \<and> (e = None \<longrightarrow> k = someLimit))
         \<and> mset (sort_short Messages_Less (undelivered convMap)) = mset (undelivered convMap)
         \<and> sorted_wrt (\<lambda>x y. Timestamp (snd x) \<le> Timestamp (snd y))
              (sort_short Messages_Less (undelivered convMap))"
proof -
  let ?rTx = "undelivered convMap"
  let ?sorted = "sort_short Messages_Less ?rTx"
  let ?cap = "rTx_cap ext (length ?rTx)"
  let ?m = "min (?cap - length ?rTx) (someLimit - length ?sorted)"
  note ss = sort_short_sorts [of ?rTx]
  have len: "length ?sorted = length ?rTx" using ss by (metis size_mset)
  from res conv srt have cap: "someLimit \<le> ?cap"
    and l: "retransmit_loop ext (heap c a)
              (take someLimit (map Some ?sorted @ replicate (?cap - length ?rTx) None)) c
            = Inr (e, c')"
    by (auto simp: doRetransmit_def Let_def split: if_splits)
  have tk: "take someLimit (map Some ?sorted @ replicate (?cap - length ?rTx) None)
              = map Some (take someLimit ?sorted) @ replicate ?m None"
    by (simp add: take_map)
  from retransmit_loop_prefix [OF swd l [unfolded tk]]
  obtain j where j: "j \<le> length (take someLimit ?sorted)"
    and g: "session_log c' = session_log c
          @ map (\<lambda>(mID, msg). (swd_Receiver d, swd_Provider d,
                   projr (AppendToSpool ext (swd_ID d) (Ciphertext msg))))
              (take j (take someLimit ?sorted))"
    and n: "e = None \<longrightarrow> j = length (take someLimit ?sorted) \<and> ?m = 0"
    by blast
  from j have js: "j \<le> someLimit" by simp
  then have tj: "take j (take someLimit ?sorted) = take j ?sorted" by (simp add: min_def)
  have "j = someLimit" if "e = None"
  proof -
    from n that have a: "j = min (length ?sorted) someLimit" and b: "?m = 0" by simp_all
    from b cap len have "someLimit \<le> length ?sorted" by (auto simp: min_def split: if_splits)
    with a show ?thesis by simp
  qed
  with js g tj ss show ?thesis by auto
qed


theorem doRetransmit_order_witness:
  "\<exists>c'. doRetransmit toy_ext 0 alice_unsorted = Inr (None, c')
        \<and> session_log c' = [(''spool'', ''provider'', [7, 44]), (''spool'', ''provider'', [7, 42]),
                             (''spool'', ''provider'', [7, 45]), (''spool'', ''provider'', [7, 43])]
        \<and> sort_short Messages_Less
             [([1], outbound [41] 9 True), ([2], outbound [42] 3 True),
              ([3], outbound [43] 7 True), ([4], outbound [44] 1 True),
              ([5], outbound [45] 5 True)]
           = [([4], outbound [44] 1 True), ([2], outbound [42] 3 True),
              ([5], outbound [45] 5 True), ([3], outbound [43] 7 True),
              ([1], outbound [41] 9 True)]
        \<and> sorted_wrt (\<lambda>x y. Timestamp (snd x) \<le> Timestamp (snd y))
             [([4 :: byte], outbound [44] 1 True), ([2], outbound [42] 3 True),
              ([5], outbound [45] 5 True), ([3], outbound [43] 7 True),
              ([1], outbound [41] 9 True)]"
proof -
  let ?L = "[([1], outbound [41] 9 True), ([2], outbound [42] 3 True),
             ([3], outbound [43] 7 True), ([4], outbound [44] 1 True),
             ([5 :: byte], outbound [45] 5 True)]"
  let ?S = "[([4], outbound [44] 1 True), ([2], outbound [42] 3 True),
             ([5], outbound [45] 5 True), ([3], outbound [43] 7 True),
             ([1 :: byte], outbound [41] 9 True)]"
  have u: "undelivered ?L = ?L" by (simp add: undelivered_def outbound_def)
  have ev: "sort_short Messages_Less ?L = ?S" by code_simp
  have conv: "conversations alice_unsorted (Nickname (heap alice_unsorted 0)) = Some ?L"
    by (simp add: toy_defs)
  have swd: "spoolWriteDescriptor (heap alice_unsorted 0)
               = Some \<lparr>swd_ID = [7], swd_Receiver = ''spool'', swd_Provider = ''provider''\<rparr>"
    by (simp add: toy_defs)
  have srt: "sort_Sort toy_ext Messages_Less (undelivered ?L)
               = sort_short Messages_Less (undelivered ?L)"
    by (simp add: toy_ext_def)
  have "case doRetransmit toy_ext 0 alice_unsorted of
          Inl p \<Rightarrow> False | Inr (e, c) \<Rightarrow> e = None"
    by code_simp
  then obtain c' where res: "doRetransmit toy_ext 0 alice_unsorted = Inr (None, c')"
    by (cases "doRetransmit toy_ext 0 alice_unsorted") auto
  have lg: "session_log alice_unsorted = []" by (simp add: toy_defs)
  from doRetransmit_order [OF conv swd srt res]
  obtain k where kl: "k \<le> someLimit"
    and g: "session_log c' = session_log alice_unsorted
              @ map (\<lambda>(mID, msg). (''spool'', ''provider'',
                       projr (AppendToSpool toy_ext [7] (Ciphertext msg))))
                  (take k (sort_short Messages_Less (undelivered ?L)))"
    and n: "(None :: string option) = None \<longrightarrow> k = someLimit"
    and s: "sorted_wrt (\<lambda>x y. Timestamp (snd x) \<le> Timestamp (snd y))
              (sort_short Messages_Less (undelivered ?L))"
    by (elim conjE exE) simp
  from n have k: "k = someLimit" by simp
  have t4: "take someLimit ?S = [([4], outbound [44] 1 True), ([2], outbound [42] 3 True),
             ([5], outbound [45] 5 True), ([3], outbound [43] 7 True)]"
    by (simp add: someLimit_def)
  have ap: "\<And>ct. projr (AppendToSpool toy_ext [7] ct) = 7 # ct"
    by (simp add: toy_ext_def)
  have 1: "session_log c' = [(''spool'', ''provider'', [7, 44]), (''spool'', ''provider'', [7, 42]),
                             (''spool'', ''provider'', [7, 45]), (''spool'', ''provider'', [7, 43])]"
    unfolding g k u ev lg t4 ap by (simp add: outbound_def)
  have 2: "sorted_wrt (\<lambda>x y. Timestamp (snd x) \<le> Timestamp (snd y)) ?S"
    using s unfolding u ev .
  show ?thesis
  proof (intro exI conjI)
    show "doRetransmit toy_ext 0 alice_unsorted = Inr (None, c')" by (rule res)
    show "session_log c' = [(''spool'', ''provider'', [7, 44]), (''spool'', ''provider'', [7, 42]),
                             (''spool'', ''provider'', [7, 45]), (''spool'', ''provider'', [7, 43])]"
      by (rule 1)
    show "sort_short Messages_Less ?L = ?S" by (rule ev)
    show "sorted_wrt (\<lambda>x y. Timestamp (snd x) \<le> Timestamp (snd y)) ?S" by (rule 2)
  qed
qed

end
